theory Spec2Isabelle
  imports Complex_Main
begin

section \<open>Python values: exceptions and numpy arrays\<close>

text \<open>
  The module \<^verbatim>\<open>spaudiopy/IO.py\<close> is embedded function by function. Samples are
  modelled as real numbers: rounding, infinities and NaN of IEEE doubles are outside the
  model. Exceptions are values of \<open>error\<close>; a fallible computation returns
  \<open>error + 'a\<close> with \<open>Inl\<close> the raised exception.
\<close>

datatype error =
    ValueError string
  | AssertionError
  | IndexError
  | KeyError string
  | TypeError
  | OSError
  | FloatingPointError

text \<open>
  A numpy array of dimension at most two. \<open>Arr2 c rows\<close> is a two-dimensional array
  with \<open>length rows\<close> rows and \<open>c\<close> columns (the column count is kept apart, as
  numpy keeps it for an array without rows).
\<close>

datatype ndarray =
    Arr0 real
  | Arr1 "real list"
  | Arr2 nat "real list list"

fun np_shape :: "ndarray \<Rightarrow> nat list" where
  "np_shape (Arr0 x) = []"
| "np_shape (Arr1 xs) = [length xs]"
| "np_shape (Arr2 c rows) = [length rows, c]"

text \<open>\<^verbatim>\<open>a.shape[1]\<close>: the tuple index is out of range unless the array is 2-D.\<close>

fun np_shape1 :: "ndarray \<Rightarrow> error + nat" where
  "np_shape1 (Arr2 c rows) = Inr c"
| "np_shape1 a = Inl IndexError"

fun np_flat :: "ndarray \<Rightarrow> real list" where
  "np_flat (Arr0 x) = [x]"
| "np_flat (Arr1 xs) = xs"
| "np_flat (Arr2 c rows) = concat rows"

text \<open>\<^verbatim>\<open>np.squeeze\<close>: every axis of length one is removed.\<close>

fun np_squeeze :: "ndarray \<Rightarrow> ndarray" where
  "np_squeeze (Arr0 x) = Arr0 x"
| "np_squeeze (Arr1 xs) = (case xs of [x] \<Rightarrow> Arr0 x | _ \<Rightarrow> Arr1 xs)"
| "np_squeeze (Arr2 c rows) =
     (if length rows = 1 then
        (if c = 1 then (case concat rows of [x] \<Rightarrow> Arr0 x | xs \<Rightarrow> Arr1 xs)
         else Arr1 (concat rows))
      else if c = 1 then Arr1 (concat rows)
      else Arr2 c rows)"

fun np_zeros_like :: "ndarray \<Rightarrow> ndarray" where
  "np_zeros_like (Arr0 x) = Arr0 0"
| "np_zeros_like (Arr1 xs) = Arr1 (replicate (length xs) 0)"
| "np_zeros_like (Arr2 c rows) = Arr2 c (replicate (length rows) (replicate c 0))"

definition np_ones :: "nat \<Rightarrow> real list" where
  "np_ones n = replicate n 1"

text \<open>
  The statement \<^verbatim>\<open>a[:, 0] = np.ones(a.shape[0])\<close>. It raises IndexError for an
  array that is not 2-D (no \<^verbatim>\<open>shape[0]\<close>, or too many indices) and for a 2-D
  array without a column 0.
\<close>

fun set_column0_ones :: "ndarray \<Rightarrow> error + ndarray" where
  "set_column0_ones (Arr2 c rows) =
     (if c = 0 then Inl IndexError
      else Inr (Arr2 c (map2 (\<lambda>row v. row[0 := v]) rows (np_ones (length rows)))))"
| "set_column0_ones a = Inl IndexError"

text \<open>\<^verbatim>\<open>int(x)\<close> on a float truncates towards zero.\<close>

definition python_int :: "real \<Rightarrow> int" where
  "python_int x = (if 0 \<le> x then \<lfloor>x\<rfloor> else \<lceil>x\<rceil>)"

text \<open>\<^verbatim>\<open>int(a)\<close> on an array: only an array with a single element converts.\<close>

definition int_of_array :: "ndarray \<Rightarrow> error + int" where
  "int_of_array a = (case np_flat a of [x] \<Rightarrow> Inr (python_int x) | _ \<Rightarrow> Inl TypeError)"

text \<open>\<^verbatim>\<open>os.path.join\<close> of two components (POSIX).\<close>

definition os_path_join :: "string \<Rightarrow> string \<Rightarrow> string" where
  "os_path_join a b =
     (if b \<noteq> [] \<and> hd b = CHR ''/'' then b
      else if a = [] \<or> last a = CHR ''/'' then a @ b
      else a @ ''/'' @ b)"

section \<open>Containers, HRIR sets and the environment\<close>

text \<open>
  What \<^verbatim>\<open>loadmat\<close> returns: a dictionary from variable names to the 2-D arrays
  of the container.
\<close>

type_synonym mat = "string \<rightharpoonup> ndarray"

definition mat_get :: "mat \<Rightarrow> string \<Rightarrow> error + ndarray" where
  "mat_get m key = (case m key of None \<Rightarrow> Inl (KeyError key) | Some a \<Rightarrow> Inr a)"

text \<open>
  The grid of an HRIR set, \<^verbatim>\<open>pd.DataFrame({'azi': azi, 'colat': elev})\<close>: its two
  columns. The validation pandas does on the columns is not modelled.
\<close>

record grid =
  azi :: ndarray
  colat :: ndarray

text \<open>
  Modelled from the spec: the class \<^verbatim>\<open>sig.HRIRs\<close> is not part of the module. An
  HRTF set is the left and right impulse responses (grid position by sample), the grid
  and the sample rate; constructing one stores the four components.
\<close>

record HRIRs =
  left :: ndarray
  right :: ndarray
  grid :: grid
  fs_of :: int

text \<open>
  Modelled from the spec: \<^verbatim>\<open>len(hrirs)\<close> is defined by the missing class. The
  spec names it the impulse length of the set, the number of samples of each row of the
  2-D array \<open>left\<close>; an array that is not 2-D has no second axis, and asking for its
  length raises.
\<close>

definition hrirs_len :: "HRIRs \<Rightarrow> error + nat" where
  "hrirs_len hrirs = np_shape1 (left hrirs)"

record wav =
  wav_rate :: int
  wav_data :: "real list list"

text \<open>
  The environment of a call: the directory of the module
  (\<^verbatim>\<open>os.path.dirname(__file__)\<close>), the containers \<^verbatim>\<open>loadmat\<close> can read, the
  audio files written so far, the paths that cannot be written, and the warnings issued.
\<close>

record world =
  module_dir :: string
  mat_files :: "string \<rightharpoonup> mat"
  wav_files :: "string \<rightharpoonup> wav"
  unwritable :: "string set"
  warnings :: "string list"

section \<open>load_hrirs\<close>

text \<open>Lines 115 to 123: the file name, or the default container of the sample rate.\<close>

definition default_filename :: "string \<Rightarrow> int \<Rightarrow> error + string" where
  "default_filename current_file_dir fs =
     (if fs = 44100 then Inr (os_path_join current_file_dir ''../data/HRTF_default.mat'')
      else if fs = 48000 then Inr (os_path_join current_file_dir ''../data/HRTF_default48k.mat'')
      else Inl (ValueError ''No default hrirs.''))"

text \<open>Lines 136 to 141: diracs as dummy; the left array is overwritten first.\<close>

definition dummy_hrirs :: "ndarray \<Rightarrow> ndarray \<Rightarrow> error + ndarray \<times> ndarray" where
  "dummy_hrirs hrir_l hrir_r =
     (case set_column0_ones (np_zeros_like hrir_l) of
        Inl e \<Rightarrow> Inl e
      | Inr l \<Rightarrow>
          (case set_column0_ones (np_zeros_like hrir_r) of
             Inl e \<Rightarrow> Inl e
           | Inr r \<Rightarrow> Inr (l, r)))"

text \<open>Lines 130 to 145: from the loaded dictionary to the HRIR set.\<close>

definition hrirs_of_mat :: "mat \<Rightarrow> int \<Rightarrow> bool \<Rightarrow> error + HRIRs" where
  "hrirs_of_mat m fs dummy =
     (case mat_get m ''hrir_l'' of Inl e \<Rightarrow> Inl e | Inr a_l \<Rightarrow>
      case mat_get m ''hrir_r'' of Inl e \<Rightarrow> Inl e | Inr a_r \<Rightarrow>
      case mat_get m ''SamplingRate'' of Inl e \<Rightarrow> Inl e | Inr a_fs \<Rightarrow>
      case int_of_array a_fs of Inl e \<Rightarrow> Inl e | Inr hrir_fs \<Rightarrow>
      case mat_get m ''azi'' of Inl e \<Rightarrow> Inl e | Inr a_azi \<Rightarrow>
      case mat_get m ''elev'' of Inl e \<Rightarrow> Inl e | Inr a_elev \<Rightarrow>
      case (if dummy then dummy_hrirs (np_squeeze a_l) (np_squeeze a_r)
            else Inr (np_squeeze a_l, np_squeeze a_r)) of
        Inl e \<Rightarrow> Inl e
      | Inr (hrir_l, hrir_r) \<Rightarrow>
          (let H = \<lparr>left = hrir_l, right = hrir_r,
                    grid = \<lparr>azi = np_squeeze a_azi, colat = np_squeeze a_elev\<rparr>,
                    fs_of = hrir_fs\<rparr>
           in if fs_of H = fs then Inr H else Inl AssertionError))"

definition load_hrirs :: "world \<Rightarrow> int \<Rightarrow> string option \<Rightarrow> bool \<Rightarrow> error + HRIRs" where
  "load_hrirs w fs filename dummy =
     (case (case filename of
              None \<Rightarrow> default_filename (module_dir w) fs
            | Some f \<Rightarrow> Inr f) of
        Inl e \<Rightarrow> Inl e
      | Inr f \<Rightarrow>
          (case mat_files w f of
             None \<Rightarrow> Inl (ValueError ''No default hrirs. Try running HRIRs_from_SH.py'')
           | Some m \<Rightarrow> hrirs_of_mat m fs dummy))"

section \<open>The orientation sweep\<close>

text \<open>
  The bank \<^verbatim>\<open>ssr_brirs\<close> is a 2-D array with 720 rows, kept as the list of its rows.
  \<^verbatim>\<open>np.zeros((r, c))\<close> raises ValueError for a negative dimension.
\<close>

type_synonym bank = "real list list"

definition np_zeros :: "nat \<Rightarrow> int \<Rightarrow> error + bank" where
  "np_zeros r c =
     (if c < 0 then Inl (ValueError ''negative dimensions are not allowed'')
      else Inr (replicate r (replicate (nat c) 0)))"

text \<open>
  The statement \<^verbatim>\<open>B[i, :] = v\<close> for a 1-D array \<open>v\<close>: the row is replaced by
  \<open>v\<close> when the lengths agree, a single value is broadcast over the row, and any other
  length raises ValueError.
\<close>

definition set_row :: "bank \<Rightarrow> nat \<Rightarrow> real list \<Rightarrow> error + bank" where
  "set_row B i v =
     (if length B \<le> i then Inl IndexError
      else if length v = length (B ! i) then Inr (B[i := v])
      else if length v = 1 then Inr (B[i := replicate (length (B ! i)) (v ! 0)])
      else Inl (ValueError ''could not broadcast input array''))"

definition np_deg2rad :: "nat \<Rightarrow> real" where
  "np_deg2rad angle = real angle * pi / 180"

text \<open>
  The two binaural renderers are collaborators outside the module: the method
  \<^verbatim>\<open>hull.binauralize(ls_irs, fs, orientation, hrirs)\<close> of the hull argument
  (written \<open>hull'\<close>, as \<open>hull\<close> is an operator of HOL) and the function
  \<^verbatim>\<open>sdm.render_bsdm(sdm_p, sdm_phi, sdm_theta, hrirs)\<close>. Each returns a pair of 1-D
  arrays or raises; they are parameters of the model.
\<close>

type_synonym binauralize =
  "ndarray \<Rightarrow> int \<Rightarrow> real \<times> real \<Rightarrow> HRIRs \<Rightarrow> error + real list \<times> real list"

type_synonym render_bsdm =
  "real list \<Rightarrow> real list \<Rightarrow> real list \<Rightarrow> HRIRs \<Rightarrow> error + real list \<times> real list"

text \<open>Lines 215 to 222: the loop of \<^verbatim>\<open>write_ssr_brirs_loudspeaker\<close>.\<close>

fun loudspeaker_loop ::
  "binauralize \<Rightarrow> ndarray \<Rightarrow> int \<Rightarrow> HRIRs \<Rightarrow> nat list \<Rightarrow> bank \<Rightarrow> error + bank" where
  "loudspeaker_loop hull' ls_irs fs hrirs [] ssr_brirs = Inr ssr_brirs"
| "loudspeaker_loop hull' ls_irs fs hrirs (angle # angles) ssr_brirs =
     (case hull' ls_irs fs (np_deg2rad angle, 0) hrirs of
        Inl e \<Rightarrow> Inl e
      | Inr (ir_l, ir_r) \<Rightarrow>
          (case set_row ssr_brirs (2 * angle) ir_l of
             Inl e \<Rightarrow> Inl e
           | Inr B1 \<Rightarrow>
               (case set_row B1 (2 * angle + 1) ir_r of
                  Inl e \<Rightarrow> Inl e
                | Inr B2 \<Rightarrow> loudspeaker_loop hull' ls_irs fs hrirs angles B2)))"

text \<open>Lines 214 to 222: the bank of the loudspeaker variant, before normalisation.\<close>

definition sweep_loudspeaker ::
  "binauralize \<Rightarrow> ndarray \<Rightarrow> int \<Rightarrow> HRIRs \<Rightarrow> error + bank" where
  "sweep_loudspeaker hull' ls_irs fs hrirs =
     (case np_shape1 ls_irs of Inl e \<Rightarrow> Inl e | Inr S \<Rightarrow>
      case hrirs_len hrirs of Inl e \<Rightarrow> Inl e | Inr H \<Rightarrow>
      case np_zeros 720 (int S + int H - 1) of Inl e \<Rightarrow> Inl e | Inr ssr_brirs \<Rightarrow>
        loudspeaker_loop hull' ls_irs fs hrirs [0..<360] ssr_brirs)"

text \<open>Line 261: the rotated azimuth, a new array.\<close>

definition rotate_phi :: "real list \<Rightarrow> nat \<Rightarrow> real list" where
  "rotate_phi sdm_phi angle = map (\<lambda>x. x - np_deg2rad angle) sdm_phi"

text \<open>Lines 260 to 267: the loop of \<^verbatim>\<open>write_ssr_brirs_sdm\<close>.\<close>

fun sdm_loop ::
  "render_bsdm \<Rightarrow> real list \<Rightarrow> real list \<Rightarrow> real list \<Rightarrow> HRIRs \<Rightarrow> nat list \<Rightarrow> bank
     \<Rightarrow> error + bank" where
  "sdm_loop render sdm_p sdm_phi sdm_theta hrirs [] ssr_brirs = Inr ssr_brirs"
| "sdm_loop render sdm_p sdm_phi sdm_theta hrirs (angle # angles) ssr_brirs =
     (let sdm_phi_rot = rotate_phi sdm_phi angle in
      case render sdm_p sdm_phi_rot sdm_theta hrirs of
        Inl e \<Rightarrow> Inl e
      | Inr (ir_l, ir_r) \<Rightarrow>
          (case set_row ssr_brirs (2 * angle) ir_l of
             Inl e \<Rightarrow> Inl e
           | Inr B1 \<Rightarrow>
               (case set_row B1 (2 * angle + 1) ir_r of
                  Inl e \<Rightarrow> Inl e
                | Inr B2 \<Rightarrow> sdm_loop render sdm_p sdm_phi sdm_theta hrirs angles B2)))"

text \<open>Lines 259 to 267: the bank of the room variant, before normalisation.\<close>

definition sweep_sdm ::
  "render_bsdm \<Rightarrow> real list \<Rightarrow> real list \<Rightarrow> real list \<Rightarrow> HRIRs \<Rightarrow> error + bank" where
  "sweep_sdm render sdm_p sdm_phi sdm_theta hrirs =
     (case hrirs_len hrirs of Inl e \<Rightarrow> Inl e | Inr H \<Rightarrow>
      case np_zeros 720 (int (length sdm_p) + int H - 1) of Inl e \<Rightarrow> Inl e | Inr ssr_brirs \<Rightarrow>
        sdm_loop render sdm_p sdm_phi sdm_theta hrirs [0..<360] ssr_brirs)"

text \<open>
  The body the two loops share, for the proofs: rows \<open>2 * angle\<close> and
  \<open>2 * angle + 1\<close> are written from the pair \<open>f angle\<close>, for each angle in turn.
\<close>

fun fill_rows :: "(nat \<Rightarrow> error + real list \<times> real list) \<Rightarrow> nat list \<Rightarrow> bank \<Rightarrow> error + bank" where
  "fill_rows f [] B = Inr B"
| "fill_rows f (angle # angles) B =
     (case f angle of
        Inl e \<Rightarrow> Inl e
      | Inr (ir_l, ir_r) \<Rightarrow>
          (case set_row B (2 * angle) ir_l of
             Inl e \<Rightarrow> Inl e
           | Inr B1 \<Rightarrow>
               (case set_row B1 (2 * angle + 1) ir_r of
                  Inl e \<Rightarrow> Inl e
                | Inr B2 \<Rightarrow> fill_rows f angles B2)))"

section \<open>Normalisation and output\<close>

text \<open>
  \<^verbatim>\<open>np.max(np.abs(B))\<close>: the maximum over all samples; numpy raises ValueError on an
  array without elements.
\<close>

definition np_abs :: "bank \<Rightarrow> bank" where
  "np_abs B = map (map abs) B"

definition np_max :: "bank \<Rightarrow> error + real" where
  "np_max B =
     (case concat B of
        [] \<Rightarrow> Inl (ValueError ''zero-size array to reduction operation maximum which has no identity'')
      | x # xs \<Rightarrow> Inr (fold max xs x))"

text \<open>
  \<^verbatim>\<open>B / m\<close>: every sample is divided by the scalar. A zero divisor yields infinities
  or NaN in numpy, which the reals do not have; the model makes this event an outcome of
  its own, \<open>FloatingPointError\<close>.
\<close>

definition np_divide :: "bank \<Rightarrow> real \<Rightarrow> error + bank" where
  "np_divide B m = (if m = 0 then Inl FloatingPointError else Inr (map (map (\<lambda>x. x / m)) B))"

text \<open>Lines 224 to 227 (and 269 to 272): the normaliser, shared by both variants.\<close>

definition normalize_brirs :: "bank \<Rightarrow> world \<Rightarrow> (error + bank) \<times> world" where
  "normalize_brirs ssr_brirs w =
     (case np_max (np_abs ssr_brirs) of
        Inl e \<Rightarrow> (Inl e, w)
      | Inr m \<Rightarrow>
          if m > 1 then
            (let w1 = w\<lparr>warnings := warnings w @ [''Normalizing BRIRs'']\<rparr> in
             case np_max (np_abs ssr_brirs) of
               Inl e \<Rightarrow> (Inl e, w1)
             | Inr m' \<Rightarrow> (np_divide ssr_brirs m', w1))
          else (Inr ssr_brirs, w))"

text \<open>Lines 211 and 212: the extension is appended unless the name ends with it.\<close>

definition wav_filename :: "string \<Rightarrow> string" where
  "wav_filename filename =
     (if drop (length filename - 4) filename = ''.wav'' then filename else filename @ ''.wav'')"

text \<open>
  \<^verbatim>\<open>wavfile.write(filename, fs, data)\<close>: the file is created or replaced, unless the
  path cannot be written. The conversion to single precision is the identity on the reals.
\<close>

definition wavfile_write :: "world \<Rightarrow> string \<Rightarrow> int \<Rightarrow> real list list \<Rightarrow> (error + unit) \<times> world" where
  "wavfile_write w filename fs data =
     (if filename \<in> unwritable w then (Inl OSError, w)
      else (Inr (), w\<lparr>wav_files := (wav_files w)(filename \<mapsto> \<lparr>wav_rate = fs, wav_data = data\<rparr>)\<rparr>))"

text \<open>Lines 207 to 209 (and 252 to 254): the HRIR set and the check of its sample rate.\<close>

definition checked_hrirs :: "world \<Rightarrow> int \<Rightarrow> HRIRs option \<Rightarrow> error + HRIRs" where
  "checked_hrirs w fs hrirs =
     (case (case hrirs of None \<Rightarrow> load_hrirs w fs None False | Some h \<Rightarrow> Inr h) of
        Inl e \<Rightarrow> Inl e
      | Inr h \<Rightarrow> if fs_of h = fs then Inr h else Inl AssertionError)"

text \<open>Lines 224 to 230: normalise and write to file.\<close>

definition normalize_and_write :: "world \<Rightarrow> string \<Rightarrow> int \<Rightarrow> bank \<Rightarrow> (error + unit) \<times> world" where
  "normalize_and_write w filename fs ssr_brirs =
     (case normalize_brirs ssr_brirs w of
        (Inl e, w1) \<Rightarrow> (Inl e, w1)
      | (Inr B, w1) \<Rightarrow> wavfile_write w1 filename fs (transpose B))"

definition write_ssr_brirs_loudspeaker ::
  "world \<Rightarrow> string \<Rightarrow> ndarray \<Rightarrow> binauralize \<Rightarrow> int \<Rightarrow> HRIRs option \<Rightarrow> (error + unit) \<times> world" where
  "write_ssr_brirs_loudspeaker w filename ls_irs hull' fs hrirs =
     (case checked_hrirs w fs hrirs of
        Inl e \<Rightarrow> (Inl e, w)
      | Inr h \<Rightarrow>
          (case sweep_loudspeaker hull' ls_irs fs h of
             Inl e \<Rightarrow> (Inl e, w)
           | Inr ssr_brirs \<Rightarrow> normalize_and_write w (wav_filename filename) fs ssr_brirs))"

definition write_ssr_brirs_sdm ::
  "render_bsdm \<Rightarrow> world \<Rightarrow> string \<Rightarrow> real list \<Rightarrow> real list \<Rightarrow> real list \<Rightarrow> int \<Rightarrow> HRIRs option
     \<Rightarrow> (error + unit) \<times> world" where
  "write_ssr_brirs_sdm render w filename sdm_p sdm_phi sdm_theta fs hrirs =
     (case checked_hrirs w fs hrirs of
        Inl e \<Rightarrow> (Inl e, w)
      | Inr h \<Rightarrow>
          (case sweep_sdm render sdm_p sdm_phi sdm_theta h of
             Inl e \<Rightarrow> (Inl e, w)
           | Inr ssr_brirs \<Rightarrow> normalize_and_write w (wav_filename filename) fs ssr_brirs))"

section \<open>The normaliser\<close>

lemma fold_max_eq_Max: "fold max xs (x::real) = Max (set (x # xs))"
  by (rule Max.set_eq_fold[symmetric])

lemma np_max_Inr_iff:
  "np_max B = Inr m \<longleftrightarrow> concat B \<noteq> [] \<and> m = Max (set (concat B))"
proof (cases "concat B")
  case Nil
  then show ?thesis by (simp add: np_max_def del: concat_eq_Nil_conv)
next
  case (Cons x xs)
  then show ?thesis
    using fold_max_eq_Max[of xs x]
    by (auto simp add: np_max_def simp del: concat_eq_Nil_conv set_concat)
qed

lemma np_max_Inl_iff:
  "np_max B = Inl e \<longleftrightarrow> concat B = [] \<and> e = ValueError ''zero-size array to reduction operation maximum which has no identity''"
  by (cases "concat B") (auto simp add: np_max_def simp del: concat_eq_Nil_conv)

lemma concat_np_abs: "concat (np_abs B) = map abs (concat B)"
  by (simp add: np_abs_def map_concat)

lemma concat_scale: "concat (map (map f) B) = map f (concat B)"
  by (simp add: map_concat)

lemma Max_abs_scaled:
  assumes ne: "xs \<noteq> []" and m: "m = Max (set (map abs xs))" and pos: "0 < (m::real)"
  shows "Max (set (map abs (map (\<lambda>x. x / m) xs))) = 1"
proof (rule Max_eqI)
  show "finite (set (map abs (map (\<lambda>x. x / m) xs)))" by simp
next
  fix y assume "y \<in> set (map abs (map (\<lambda>x. x / m) xs))"
  then obtain x where x: "x \<in> set xs" and y: "y = \<bar>x / m\<bar>" by auto
  have "\<bar>x\<bar> \<le> m" unfolding m using x by (intro Max_ge) auto
  then show "y \<le> 1" using pos y by (simp add: abs_divide divide_le_eq)
next
  have "Max (set (map abs xs)) \<in> set (map abs xs)"
    using ne by (intro Max_in) auto
  then obtain x where x: "x \<in> set xs" and mx: "\<bar>x\<bar> = m" using m by auto
  have "\<bar>x / m\<bar> = 1" using pos mx by (simp add: abs_divide)
  then show "1 \<in> set (map abs (map (\<lambda>x. x / m) xs))" using x by force
qed

lemma np_max_abs_divided:
  assumes "np_max (np_abs B) = Inr m" "1 < m"
  shows "np_max (np_abs (map (map (\<lambda>x. x / m)) B)) = Inr 1"
proof -
  from assms(1) have ne: "concat B \<noteq> []" and m: "m = Max (set (map abs (concat B)))"
    by (simp_all add: np_max_Inr_iff concat_np_abs)
  have "Max (set (map abs (map (\<lambda>x. x / m) (concat B)))) = 1"
    using Max_abs_scaled[OF ne m] assms(2) by simp
  then show ?thesis
    using ne by (simp add: np_max_Inr_iff concat_np_abs concat_scale)
qed

lemma normalize_gt:
  assumes "np_max (np_abs B) = Inr m" "1 < m"
  shows "normalize_brirs B w =
          (Inr (map (map (\<lambda>x. x / m)) B), w\<lparr>warnings := warnings w @ [''Normalizing BRIRs'']\<rparr>)"
  using assms by (simp add: normalize_brirs_def np_divide_def Let_def)

lemma normalize_le:
  assumes "np_max (np_abs B) = Inr m" "\<not> 1 < m"
  shows "normalize_brirs B w = (Inr B, w)"
  using assms by (simp add: normalize_brirs_def)

lemma normalize_err:
  assumes "np_max (np_abs B) = Inl e"
  shows "normalize_brirs B w = (Inl e, w)"
  using assms by (simp add: normalize_brirs_def)

text \<open>
  Claim C3. The normaliser computes the maximum absolute sample \<open>m\<close> of the whole bank.
  If \<open>m\<close> exceeds 1, every sample is divided by \<open>m\<close>, one warning is issued and the
  call proceeds, and the maximum absolute sample of the result is 1; if \<open>m\<close> does not
  exceed 1, the bank and the environment are returned unchanged.
\<close>

theorem normalize_correct:
  assumes "np_max (np_abs B) = Inr m"
  shows "(\<forall>x \<in> set (concat B). \<bar>x\<bar> \<le> m) \<and> (\<exists>x \<in> set (concat B). \<bar>x\<bar> = m) \<and>
         (1 < m \<longrightarrow>
            normalize_brirs B w =
              (Inr (map (map (\<lambda>x. x / m)) B),
               w\<lparr>warnings := warnings w @ [''Normalizing BRIRs'']\<rparr>) \<and>
            np_max (np_abs (map (map (\<lambda>x. x / m)) B)) = Inr 1) \<and>
         (m \<le> 1 \<longrightarrow> normalize_brirs B w = (Inr B, w))"
proof -
  from assms have ne: "concat B \<noteq> []" and m: "m = Max (set (map abs (concat B)))"
    by (simp_all add: np_max_Inr_iff concat_np_abs)
  have a: "\<forall>x \<in> set (concat B). \<bar>x\<bar> \<le> m"
    unfolding m by (auto intro!: Max_ge simp del: set_concat)
  have "Max (set (map abs (concat B))) \<in> set (map abs (concat B))"
    using ne by (intro Max_in) auto
  then have b: "\<exists>x \<in> set (concat B). \<bar>x\<bar> = m"
    unfolding m[symmetric] by (auto simp del: set_concat)
  show ?thesis
    using a b normalize_gt[OF assms] normalize_le[OF assms] np_max_abs_divided[OF assms]
    by auto
qed

text \<open>A bank with maximum 4: it is divided by 4, with one warning.\<close>

theorem normalize_correct_witness:
  "np_max (np_abs [[2, -4], [1, 0]]) = Inr 4 \<and>
   normalize_brirs [[2, -4], [1, 0]] \<lparr>module_dir = '''', mat_files = Map.empty, wav_files = Map.empty, unwritable = {}, warnings = []\<rparr>
     = (Inr [[1/2, -1], [1/4, 0]], \<lparr>module_dir = '''', mat_files = Map.empty, wav_files = Map.empty, unwritable = {}, warnings = [''Normalizing BRIRs'']\<rparr>) \<and>
   np_max (np_abs [[1/2, -1], [1/4, 0]]) = Inr 1"
proof -
  have h: "np_max (np_abs [[2, -4], [1, 0]]) = Inr 4"
    by (simp add: np_max_def np_abs_def)
  show ?thesis
    using h normalize_correct[OF h, of "\<lparr>module_dir = '''', mat_files = Map.empty, wav_files = Map.empty, unwritable = {}, warnings = []\<rparr>"]
    by simp
qed

lemma normalize_cases:
  "(\<exists>e. np_max (np_abs B) = Inl e \<and> normalize_brirs B w = (Inl e, w)) \<or>
   (\<exists>m. np_max (np_abs B) = Inr m \<and> 1 < m \<and>
      normalize_brirs B w =
        (Inr (map (map (\<lambda>x. x / m)) B), w\<lparr>warnings := warnings w @ [''Normalizing BRIRs'']\<rparr>)) \<or>
   (\<exists>m. np_max (np_abs B) = Inr m \<and> \<not> 1 < m \<and> normalize_brirs B w = (Inr B, w))"
proof (cases "np_max (np_abs B)")
  case (Inl e)
  then show ?thesis using normalize_err by blast
next
  case (Inr m)
  then show ?thesis using normalize_gt[OF Inr] normalize_le[OF Inr] by (cases "1 < m") auto
qed

text \<open>
  Claim C8. The normaliser is idempotent: normalising the result of a normalisation, in
  the environment the first call leaves, gives the result of the first call (bank,
  warnings and all); an exception of the first call is the outcome of both.
\<close>

theorem normalize_idempotent:
  "(case normalize_brirs B w of
      (Inl e, w1) \<Rightarrow> (Inl e, w1)
    | (Inr B1, w1) \<Rightarrow> normalize_brirs B1 w1) = normalize_brirs B w"
proof -
  consider (err) e where "np_max (np_abs B) = Inl e" "normalize_brirs B w = (Inl e, w)"
    | (gt) m where "np_max (np_abs B) = Inr m" "1 < m"
        "normalize_brirs B w =
          (Inr (map (map (\<lambda>x. x / m)) B), w\<lparr>warnings := warnings w @ [''Normalizing BRIRs'']\<rparr>)"
    | (le) m where "np_max (np_abs B) = Inr m" "\<not> 1 < m" "normalize_brirs B w = (Inr B, w)"
    using normalize_cases[of B w] by blast
  then show ?thesis
  proof cases
    case err
    then show ?thesis by simp
  next
    case gt
    have "np_max (np_abs (map (map (\<lambda>x. x / m)) B)) = Inr 1"
      using np_max_abs_divided[OF gt(1,2)] .
    then have "normalize_brirs (map (map (\<lambda>x. x / m)) B) w' = (Inr (map (map (\<lambda>x. x / m)) B), w')" for w'
      by (rule normalize_le) simp
    with gt(3) show ?thesis by simp
  next
    case le
    then show ?thesis by simp
  qed
qed

text \<open>
  The bank with maximum 4 and its normalised form have the same normalisation.
\<close>

theorem normalize_idempotent_witness:
  "normalize_brirs [[1/2, -1], [1/4, 0]]
     \<lparr>module_dir = '''', mat_files = Map.empty, wav_files = Map.empty, unwritable = {},
        warnings = [''Normalizing BRIRs'']\<rparr>
   = normalize_brirs [[2, -4], [1, 0]]
     \<lparr>module_dir = '''', mat_files = Map.empty, wav_files = Map.empty, unwritable = {},
        warnings = []\<rparr>"
proof -
  have h: "normalize_brirs [[2, -4], [1, 0]]
     \<lparr>module_dir = '''', mat_files = Map.empty, wav_files = Map.empty, unwritable = {}, warnings = []\<rparr>
     = (Inr [[1/2, -1], [1/4, 0]],
        \<lparr>module_dir = '''', mat_files = Map.empty, wav_files = Map.empty, unwritable = {},
          warnings = [''Normalizing BRIRs'']\<rparr>)"
    by (simp add: normalize_brirs_def np_max_def np_abs_def np_divide_def)
  show ?thesis
    using normalize_idempotent[of "[[2, -4], [1, 0]]"
      "\<lparr>module_dir = '''', mat_files = Map.empty, wav_files = Map.empty, unwritable = {}, warnings = []\<rparr>"]
    unfolding h by simp
qed

lemma np_max_abs_zero:
  assumes "concat B \<noteq> []" "\<forall>x \<in> set (concat B). x = 0"
  shows "np_max (np_abs B) = Inr 0"
proof -
  have "set (map abs (concat B)) = {0}"
    using assms by (cases "concat B") (auto simp del: set_concat concat_eq_Nil_conv)
  then have "Max (set (map abs (concat B))) = 0" by simp
  then show ?thesis
    using assms(1) by (simp add: np_max_Inr_iff concat_np_abs del: set_concat concat_eq_Nil_conv set_map)
qed

text \<open>
  Claim C9. The division of the normaliser is guarded: the bank is divided by its maximum
  absolute sample \<open>m\<close> only if \<open>1 < m\<close>, so that no call of the normaliser divides by
  zero, and a bank of zeros (maximum 0) is returned unchanged, without a warning.
\<close>

theorem normalize_division_guarded:
  "fst (normalize_brirs B w) \<noteq> Inl FloatingPointError \<and>
   (np_max (np_abs B) = Inr m \<longrightarrow>
      normalize_brirs B w =
        (if 1 < m then (np_divide B m, w\<lparr>warnings := warnings w @ [''Normalizing BRIRs'']\<rparr>)
         else (Inr B, w))) \<and>
   (concat B \<noteq> [] \<and> (\<forall>x \<in> set (concat B). x = 0) \<longrightarrow>
      np_max (np_abs B) = Inr 0 \<and> normalize_brirs B w = (Inr B, w))"
proof (intro conjI impI)
  show "fst (normalize_brirs B w) \<noteq> Inl FloatingPointError"
    using normalize_cases[of B w] by (auto simp: np_max_Inl_iff)
next
  assume m: "np_max (np_abs B) = Inr m"
  show "normalize_brirs B w =
        (if 1 < m then (np_divide B m, w\<lparr>warnings := warnings w @ [''Normalizing BRIRs'']\<rparr>)
         else (Inr B, w))"
    using normalize_gt[OF m] normalize_le[OF m] by (simp add: np_divide_def)
next
  assume z: "concat B \<noteq> [] \<and> (\<forall>x \<in> set (concat B). x = 0)"
  then show "np_max (np_abs B) = Inr 0" using np_max_abs_zero by blast
next
  assume z: "concat B \<noteq> [] \<and> (\<forall>x \<in> set (concat B). x = 0)"
  then have "np_max (np_abs B) = Inr 0" using np_max_abs_zero by blast
  then show "normalize_brirs B w = (Inr B, w)" by (rule normalize_le) simp
qed

text \<open>
  A bank of four zeros has maximum 0 and is returned as it is.
\<close>

theorem normalize_division_guarded_witness:
  "np_max (np_abs [[0, 0], [0, 0]]) = Inr 0 \<and>
   normalize_brirs [[0, 0], [0, 0]]
     \<lparr>module_dir = '''', mat_files = Map.empty, wav_files = Map.empty, unwritable = {}, warnings = []\<rparr>
   = (Inr [[0, 0], [0, 0]],
      \<lparr>module_dir = '''', mat_files = Map.empty, wav_files = Map.empty, unwritable = {}, warnings = []\<rparr>)"
  using normalize_division_guarded[of "[[0, 0], [0, 0]]"
      "\<lparr>module_dir = '''', mat_files = Map.empty, wav_files = Map.empty, unwritable = {}, warnings = []\<rparr>" 0]
  by simp

section \<open>The orientation sweep: shape and rows of the bank\<close>

lemma loudspeaker_loop_fill:
  "loudspeaker_loop hull' ls_irs fs hrirs angles B =
     fill_rows (\<lambda>angle. hull' ls_irs fs (np_deg2rad angle, 0) hrirs) angles B"
  by (induction angles arbitrary: B) (auto split: sum.splits prod.splits)

lemma sdm_loop_fill:
  "sdm_loop render sdm_p sdm_phi sdm_theta hrirs angles B =
     fill_rows (\<lambda>angle. render sdm_p (rotate_phi sdm_phi angle) sdm_theta hrirs) angles B"
  by (induction angles arbitrary: B) (auto simp: Let_def split: sum.splits prod.splits)

lemma set_row_Inr:
  assumes "set_row B i v = Inr B'"
  shows "i < length B" "length B' = length B"
    "B' ! i = (if length v = length (B ! i) then v else replicate (length (B ! i)) (v ! 0))"
    "\<And>j. j \<noteq> i \<Longrightarrow> B' ! j = B ! j"
    "\<And>j. j < length B \<Longrightarrow> length (B' ! j) = length (B ! j)"
    "length v = length (B ! i) \<or> length v = 1"
proof -
  from assms show i: "i < length B" by (auto simp: set_row_def split: if_splits)
  from assms show "length B' = length B" by (auto simp: set_row_def split: if_splits)
  from assms i show "B' ! i = (if length v = length (B ! i) then v else replicate (length (B ! i)) (v ! 0))"
    by (auto simp: set_row_def split: if_splits)
  from assms show "\<And>j. j \<noteq> i \<Longrightarrow> B' ! j = B ! j"
    by (auto simp: set_row_def split: if_splits)
  from assms i show "\<And>j. j < length B \<Longrightarrow> length (B' ! j) = length (B ! j)"
    by (auto simp: set_row_def nth_list_update split: if_splits)
  from assms show "length v = length (B ! i) \<or> length v = 1"
    by (auto simp: set_row_def split: if_splits)
qed

lemma set_row_ok:
  assumes "i < length B" "length v = length (B ! i)"
  shows "set_row B i v = Inr (B[i := v])"
  using assms by (simp add: set_row_def)

lemma fill_rows_shape:
  "fill_rows f angles B = Inr B' \<Longrightarrow>
     length B' = length B \<and> (\<forall>j < length B. length (B' ! j) = length (B ! j))"
proof (induction angles arbitrary: B)
  case Nil
  then show ?case by simp
next
  case (Cons a angles)
  from Cons.prems obtain l r B1 B2 where
    f: "f a = Inr (l, r)" and s1: "set_row B (2 * a) l = Inr B1"
    and s2: "set_row B1 (2 * a + 1) r = Inr B2" and rest: "fill_rows f angles B2 = Inr B'"
    by (auto split: sum.splits prod.splits)
  from Cons.IH[OF rest] set_row_Inr(2,5)[OF s1] set_row_Inr(2,5)[OF s2]
  show ?case by simp
qed

lemma fill_rows_untouched:
  "fill_rows f angles B = Inr B' \<Longrightarrow> (\<forall>a \<in> set angles. j \<noteq> 2 * a \<and> j \<noteq> 2 * a + 1) \<Longrightarrow>
     B' ! j = B ! j"
proof (induction angles arbitrary: B)
  case Nil
  then show ?case by simp
next
  case (Cons a angles)
  from Cons.prems(1) obtain l r B1 B2 where
    f: "f a = Inr (l, r)" and s1: "set_row B (2 * a) l = Inr B1"
    and s2: "set_row B1 (2 * a + 1) r = Inr B2" and rest: "fill_rows f angles B2 = Inr B'"
    by (auto split: sum.splits prod.splits)
  have "B' ! j = B2 ! j" using Cons.IH[OF rest] Cons.prems(2) by simp
  also have "\<dots> = B1 ! j" using set_row_Inr(4)[OF s2, of j] Cons.prems(2) by simp
  also have "\<dots> = B ! j" using set_row_Inr(4)[OF s1, of j] Cons.prems(2) by simp
  finally show ?case .
qed

lemma fill_rows_written:
  "fill_rows f angles B = Inr B' \<Longrightarrow> distinct angles \<Longrightarrow> k \<in> set angles \<Longrightarrow>
     \<exists>l r. f k = Inr (l, r) \<and> 2 * k + 1 < length B \<and>
       B' ! (2 * k) = (if length l = length (B ! (2 * k)) then l
                       else replicate (length (B ! (2 * k))) (l ! 0)) \<and>
       B' ! (2 * k + 1) = (if length r = length (B ! (2 * k + 1)) then r
                           else replicate (length (B ! (2 * k + 1))) (r ! 0)) \<and>
       (length l = length (B ! (2 * k)) \<or> length l = 1) \<and>
       (length r = length (B ! (2 * k + 1)) \<or> length r = 1)"
proof (induction angles arbitrary: B)
  case Nil
  then show ?case by simp
next
  case (Cons a angles)
  from Cons.prems(1) obtain l r B1 B2 where
    f: "f a = Inr (l, r)" and s1: "set_row B (2 * a) l = Inr B1"
    and s2: "set_row B1 (2 * a + 1) r = Inr B2" and rest: "fill_rows f angles B2 = Inr B'"
    by (auto split: sum.splits prod.splits)
  note r1 = set_row_Inr[OF s1] and r2 = set_row_Inr[OF s2]
  have len: "length B2 = length B" using r1(2) r2(2) by simp
  have rows: "\<And>j. j < length B \<Longrightarrow> length (B2 ! j) = length (B ! j)"
    using r1(2,5) r2(5) by simp
  show ?case
  proof (cases "k = a")
    case True
    have notin: "\<forall>b \<in> set angles. 2 * a \<noteq> 2 * b \<and> 2 * a \<noteq> 2 * b + 1"
      using Cons.prems(2) by auto presburger
    have notin': "\<forall>b \<in> set angles. 2 * a + 1 \<noteq> 2 * b \<and> 2 * a + 1 \<noteq> 2 * b + 1"
      using Cons.prems(2) by auto presburger
    have e0: "B' ! (2 * a) = B2 ! (2 * a)" using fill_rows_untouched[OF rest notin] .
    have e1: "B' ! (2 * a + 1) = B2 ! (2 * a + 1)" using fill_rows_untouched[OF rest notin'] .
    have b0: "B2 ! (2 * a) = B1 ! (2 * a)" using r2(4)[of "2 * a"] by simp
    have b1: "B1 ! (2 * a + 1) = B ! (2 * a + 1)" using r1(4)[of "2 * a + 1"] by simp
    have i1: "2 * a + 1 < length B" using r2(1) r1(2) by simp
    show ?thesis
      using True f e0 e1 b0 b1 i1 r1(3,6) r2(3,6) by simp
  next
    case False
    then have kin: "k \<in> set angles" using Cons.prems(3) by simp
    have d: "distinct angles" using Cons.prems(2) by simp
    from Cons.IH[OF rest d kin] obtain l' r' where
      IH: "f k = Inr (l', r')" "2 * k + 1 < length B2"
        "B' ! (2 * k) = (if length l' = length (B2 ! (2 * k)) then l'
                       else replicate (length (B2 ! (2 * k))) (l' ! 0))"
        "B' ! (2 * k + 1) = (if length r' = length (B2 ! (2 * k + 1)) then r'
                           else replicate (length (B2 ! (2 * k + 1))) (r' ! 0))"
        "length l' = length (B2 ! (2 * k)) \<or> length l' = 1"
        "length r' = length (B2 ! (2 * k + 1)) \<or> length r' = 1"
      by blast
    have k1: "2 * k + 1 < length B" and k0: "2 * k < length B" using IH(2) len by simp_all
    show ?thesis
      using IH rows[OF k0] rows[OF k1] k1 by simp
  qed
qed

lemma fill_rows_total:
  "(\<forall>a \<in> set angles. 2 * a + 1 < length B \<and>
      (\<exists>l r. f a = Inr (l, r) \<and> length l = length (B ! (2 * a)) \<and>
         length r = length (B ! (2 * a + 1)))) \<Longrightarrow>
   \<exists>B'. fill_rows f angles B = Inr B'"
proof (induction angles arbitrary: B)
  case Nil
  then show ?case by simp
next
  case (Cons a angles)
  from Cons.prems obtain l r where f: "f a = Inr (l, r)" and i: "2 * a + 1 < length B"
    and ll: "length l = length (B ! (2 * a))" and lr: "length r = length (B ! (2 * a + 1))"
    by auto
  have s1: "set_row B (2 * a) l = Inr (B[2 * a := l])"
    using i ll by (intro set_row_ok) simp_all
  have s2: "set_row (B[2 * a := l]) (2 * a + 1) r = Inr (B[2 * a := l, 2 * a + 1 := r])"
    using i lr by (intro set_row_ok) simp_all
  let ?B2 = "B[2 * a := l, 2 * a + 1 := r]"
  have "\<forall>b \<in> set angles. 2 * b + 1 < length ?B2 \<and>
      (\<exists>l r. f b = Inr (l, r) \<and> length l = length (?B2 ! (2 * b)) \<and>
         length r = length (?B2 ! (2 * b + 1)))"
  proof
    fix b assume b: "b \<in> set angles"
    with Cons.prems obtain l' r' where f': "f b = Inr (l', r')" and i': "2 * b + 1 < length B"
      and ll': "length l' = length (B ! (2 * b))" and lr': "length r' = length (B ! (2 * b + 1))"
      by auto
    have "length (?B2 ! j) = length (B ! j)" if "j < length B" for j
      using that ll lr by (cases "j = 2 * a"; cases "j = 2 * a + 1") (simp_all add: nth_list_update)
    then show "2 * b + 1 < length ?B2 \<and>
      (\<exists>l r. f b = Inr (l, r) \<and> length l = length (?B2 ! (2 * b)) \<and>
         length r = length (?B2 ! (2 * b + 1)))"
      using f' i' ll' lr' by simp
  qed
  from Cons.IH[OF this] show ?case using f s1 s2 by simp
qed

lemma fill_rows_cong:
  "(\<forall>a \<in> set angles. f a = g a) \<Longrightarrow> fill_rows f angles B = fill_rows g angles B"
  by (induction angles arbitrary: B) (auto split: sum.splits prod.splits)

lemma np_zeros_Inr: "np_zeros r c = Inr B \<longleftrightarrow> 0 \<le> c \<and> B = replicate r (replicate (nat c) 0)"
  by (auto simp: np_zeros_def)

text \<open>The sweep over the zero bank of 720 rows and n columns.\<close>

lemma fill_zero_bank:
  assumes "fill_rows f [0..<360] (replicate 720 (replicate n 0)) = Inr B"
  shows "length B = 720" "\<forall>row \<in> set B. length row = n"
    "\<And>k. k < 360 \<Longrightarrow> \<exists>l r. f k = Inr (l, r) \<and>
        (length l = n \<longrightarrow> B ! (2 * k) = l) \<and> (length r = n \<longrightarrow> B ! (2 * k + 1) = r)"
proof -
  let ?Z = "replicate 720 (replicate n (0::real))"
  from fill_rows_shape[OF assms] have len: "length B = 720"
    and rows: "\<forall>j < 720. length (B ! j) = n" by simp_all
  show "length B = 720" by (rule len)
  show "\<forall>row \<in> set B. length row = n"
    using len rows by (auto simp: in_set_conv_nth)
  fix k :: nat assume k: "k < 360"
  then have kin: "k \<in> set [0..<360]" by simp
  from fill_rows_written[OF assms _ kin] obtain l r where
    w: "f k = Inr (l, r)"
      "B ! (2 * k) = (if length l = length (?Z ! (2 * k)) then l
                       else replicate (length (?Z ! (2 * k))) (l ! 0))"
      "B ! (2 * k + 1) = (if length r = length (?Z ! (2 * k + 1)) then r
                           else replicate (length (?Z ! (2 * k + 1))) (r ! 0))"
    by auto
  have z0: "?Z ! (2 * k) = replicate n 0" and z1: "?Z ! (2 * k + 1) = replicate n 0"
    using k by simp_all
  show "\<exists>l r. f k = Inr (l, r) \<and>
        (length l = n \<longrightarrow> B ! (2 * k) = l) \<and> (length r = n \<longrightarrow> B ! (2 * k + 1) = r)"
    using w unfolding z0 z1 by auto
qed

lemma fill_zero_bank_total:
  assumes "\<forall>k < 360. \<exists>l r. f k = Inr (l, r) \<and> length l = n \<and> length r = n"
  shows "\<exists>B. fill_rows f [0..<360] (replicate 720 (replicate n 0)) = Inr B"
proof (rule fill_rows_total)
  show "\<forall>a \<in> set [0..<360]. 2 * a + 1 < length (replicate 720 (replicate n (0::real))) \<and>
      (\<exists>l r. f a = Inr (l, r) \<and> length l = length (replicate 720 (replicate n (0::real)) ! (2 * a)) \<and>
         length r = length (replicate 720 (replicate n (0::real)) ! (2 * a + 1)))"
    using assms by auto
qed

lemma np_zeros_cols:
  "np_zeros r (int S + int H - 1) =
     (if 1 \<le> S + H then Inr (replicate r (replicate (S + H - 1) 0))
      else Inl (ValueError ''negative dimensions are not allowed''))"
proof -
  have n: "nat (int S + int H - 1) = S + H - 1" by simp
  show ?thesis unfolding np_zeros_def n by auto
qed

lemma sweep_loudspeaker_Inr:
  "sweep_loudspeaker hull' ls_irs fs hrirs = Inr B \<longleftrightarrow>
     (\<exists>S H. np_shape1 ls_irs = Inr S \<and> hrirs_len hrirs = Inr H \<and> 1 \<le> S + H \<and>
        fill_rows (\<lambda>angle. hull' ls_irs fs (np_deg2rad angle, 0) hrirs) [0..<360]
          (replicate 720 (replicate (S + H - 1) 0)) = Inr B)"
  unfolding sweep_loudspeaker_def loudspeaker_loop_fill np_zeros_cols
  by (auto split: sum.splits)

lemma sweep_sdm_Inr:
  "sweep_sdm render sdm_p sdm_phi sdm_theta hrirs = Inr B \<longleftrightarrow>
     (\<exists>H. hrirs_len hrirs = Inr H \<and> 1 \<le> length sdm_p + H \<and>
        fill_rows (\<lambda>angle. render sdm_p (rotate_phi sdm_phi angle) sdm_theta hrirs) [0..<360]
          (replicate 720 (replicate (length sdm_p + H - 1) 0)) = Inr B)"
  unfolding sweep_sdm_def sdm_loop_fill np_zeros_cols
  by (auto split: sum.splits)

lemma int_cols: "1 \<le> S + H \<Longrightarrow> int (S + H - 1) = int S + int H - 1" for S H :: nat
  by simp

text \<open>
  Claim C1. Whenever a sweep assembles its bank, the bank has 720 rows and every row has
  \<open>S + H - 1\<close> samples, where \<open>H\<close> is \<^verbatim>\<open>len(hrirs)\<close> and \<open>S\<close> is
  \<^verbatim>\<open>ls_irs.shape[1]\<close> (loudspeaker variant) or \<^verbatim>\<open>len(sdm_p)\<close> (room variant).
  And a valid invocation does assemble it: when the two lengths exist with
  \<open>1 \<le> S + H\<close> and the renderer returns, for each of the 360 orientations, two signals
  of \<open>S + H - 1\<close> samples, the sweep returns a bank of that shape.
\<close>

theorem bank_shape:
  "(sweep_loudspeaker hull' ls_irs fs hrirs = Inr B \<longrightarrow>
      (\<exists>S H. np_shape1 ls_irs = Inr S \<and> hrirs_len hrirs = Inr H \<and> length B = 720 \<and>
         (\<forall>row \<in> set B. int (length row) = int S + int H - 1))) \<and>
   (sweep_sdm render sdm_p sdm_phi sdm_theta hrirs = Inr B \<longrightarrow>
      (\<exists>H. hrirs_len hrirs = Inr H \<and> length B = 720 \<and>
         (\<forall>row \<in> set B. int (length row) = int (length sdm_p) + int H - 1))) \<and>
   (np_shape1 ls_irs = Inr S \<and> hrirs_len hrirs = Inr H \<and> 1 \<le> S + H \<and>
    (\<forall>k < 360. \<exists>l r. hull' ls_irs fs (real k * pi / 180, 0) hrirs = Inr (l, r) \<and>
        length l = S + H - 1 \<and> length r = S + H - 1) \<longrightarrow>
      (\<exists>B'. sweep_loudspeaker hull' ls_irs fs hrirs = Inr B' \<and> length B' = 720 \<and>
         (\<forall>row \<in> set B'. int (length row) = int S + int H - 1))) \<and>
   (hrirs_len hrirs = Inr H \<and> 1 \<le> length sdm_p + H \<and>
    (\<forall>k < 360. \<exists>l r.
        render sdm_p (map (\<lambda>x. x - real k * pi / 180) sdm_phi) sdm_theta hrirs = Inr (l, r) \<and>
        length l = length sdm_p + H - 1 \<and> length r = length sdm_p + H - 1) \<longrightarrow>
      (\<exists>B'. sweep_sdm render sdm_p sdm_phi sdm_theta hrirs = Inr B' \<and> length B' = 720 \<and>
         (\<forall>row \<in> set B'. int (length row) = int (length sdm_p) + int H - 1)))"
proof (intro conjI impI)
  assume a: "sweep_loudspeaker hull' ls_irs fs hrirs = Inr B"
  then obtain S H where sh: "np_shape1 ls_irs = Inr S" "hrirs_len hrirs = Inr H" "1 \<le> S + H"
    and f: "fill_rows (\<lambda>angle. hull' ls_irs fs (np_deg2rad angle, 0) hrirs) [0..<360]
          (replicate 720 (replicate (S + H - 1) 0)) = Inr B"
    unfolding sweep_loudspeaker_Inr by blast
  from fill_zero_bank(1,2)[OF f] sh int_cols[OF sh(3)]
  show "\<exists>S H. np_shape1 ls_irs = Inr S \<and> hrirs_len hrirs = Inr H \<and> length B = 720 \<and>
         (\<forall>row \<in> set B. int (length row) = int S + int H - 1)"
    by auto
next
  assume a: "sweep_sdm render sdm_p sdm_phi sdm_theta hrirs = Inr B"
  then obtain H where sh: "hrirs_len hrirs = Inr H" "1 \<le> length sdm_p + H"
    and f: "fill_rows (\<lambda>angle. render sdm_p (rotate_phi sdm_phi angle) sdm_theta hrirs) [0..<360]
          (replicate 720 (replicate (length sdm_p + H - 1) 0)) = Inr B"
    unfolding sweep_sdm_Inr by blast
  from fill_zero_bank(1,2)[OF f] sh int_cols[OF sh(2)]
  show "\<exists>H. hrirs_len hrirs = Inr H \<and> length B = 720 \<and>
         (\<forall>row \<in> set B. int (length row) = int (length sdm_p) + int H - 1)"
    by auto
next
  assume a: "np_shape1 ls_irs = Inr S \<and> hrirs_len hrirs = Inr H \<and> 1 \<le> S + H \<and>
    (\<forall>k < 360. \<exists>l r. hull' ls_irs fs (real k * pi / 180, 0) hrirs = Inr (l, r) \<and>
        length l = S + H - 1 \<and> length r = S + H - 1)"
  then have "\<forall>k < 360. \<exists>l r. hull' ls_irs fs (np_deg2rad k, 0) hrirs = Inr (l, r) \<and>
        length l = S + H - 1 \<and> length r = S + H - 1"
    by (simp add: np_deg2rad_def)
  from fill_zero_bank_total[OF this] obtain B' where
    f: "fill_rows (\<lambda>angle. hull' ls_irs fs (np_deg2rad angle, 0) hrirs) [0..<360]
          (replicate 720 (replicate (S + H - 1) 0)) = Inr B'" by blast
  then have "sweep_loudspeaker hull' ls_irs fs hrirs = Inr B'"
    unfolding sweep_loudspeaker_Inr using a by blast
  with fill_zero_bank(1,2)[OF f] a int_cols[of S H]
  show "\<exists>B'. sweep_loudspeaker hull' ls_irs fs hrirs = Inr B' \<and> length B' = 720 \<and>
         (\<forall>row \<in> set B'. int (length row) = int S + int H - 1)"
    by auto
next
  assume a: "hrirs_len hrirs = Inr H \<and> 1 \<le> length sdm_p + H \<and>
    (\<forall>k < 360. \<exists>l r.
        render sdm_p (map (\<lambda>x. x - real k * pi / 180) sdm_phi) sdm_theta hrirs = Inr (l, r) \<and>
        length l = length sdm_p + H - 1 \<and> length r = length sdm_p + H - 1)"
  then have "\<forall>k < 360. \<exists>l r.
        render sdm_p (rotate_phi sdm_phi k) sdm_theta hrirs = Inr (l, r) \<and>
        length l = length sdm_p + H - 1 \<and> length r = length sdm_p + H - 1"
    by (simp add: np_deg2rad_def rotate_phi_def)
  from fill_zero_bank_total[OF this] obtain B' where
    f: "fill_rows (\<lambda>angle. render sdm_p (rotate_phi sdm_phi angle) sdm_theta hrirs) [0..<360]
          (replicate 720 (replicate (length sdm_p + H - 1) 0)) = Inr B'" by blast
  then have "sweep_sdm render sdm_p sdm_phi sdm_theta hrirs = Inr B'"
    unfolding sweep_sdm_Inr using a by blast
  with fill_zero_bank(1,2)[OF f] a int_cols[of "length sdm_p" H]
  show "\<exists>B'. sweep_sdm render sdm_p sdm_phi sdm_theta hrirs = Inr B' \<and> length B' = 720 \<and>
         (\<forall>row \<in> set B'. int (length row) = int (length sdm_p) + int H - 1)"
    by auto
qed

text \<open>
  Two impulse-response samples per loudspeaker (or two pressure samples) and an HRIR set
  of two samples per position: both sweeps return 720 rows of three samples.
\<close>

theorem bank_shape_witness:
  "(\<exists>B. sweep_loudspeaker (\<lambda>ls_irs fs (az, el) hrirs. Inr ([az, 0, 0], [el, 1, 2]))
          (Arr2 2 [[1, 0]]) 48000
          \<lparr>left = Arr2 2 [[1, 0], [1, 0]], right = Arr2 2 [[1, 0], [1, 0]],
            grid = \<lparr>azi = Arr1 [0, 1], colat = Arr1 [0, 0]\<rparr>, fs_of = 48000\<rparr> = Inr B \<and>
        length B = 720 \<and> (\<forall>row \<in> set B. int (length row) = 2 + 2 - 1)) \<and>
   (\<exists>B. sweep_sdm (\<lambda>sdm_p sdm_phi sdm_theta hrirs. Inr (sdm_phi @ [0], sdm_p @ [3]))
          [1, 2] [0, 1 / 2] [1, 1]
          \<lparr>left = Arr2 2 [[1, 0], [1, 0]], right = Arr2 2 [[1, 0], [1, 0]],
            grid = \<lparr>azi = Arr1 [0, 1], colat = Arr1 [0, 0]\<rparr>, fs_of = 48000\<rparr> = Inr B \<and>
        length B = 720 \<and> (\<forall>row \<in> set B. int (length row) = 2 + 2 - 1))"
  using bank_shape[where hull' = "\<lambda>ls_irs fs (az, el) hrirs. Inr ([az, 0, 0], [el, 1, 2])"
      and ls_irs = "Arr2 2 [[1, 0]]" and fs = 48000
      and hrirs = "\<lparr>left = Arr2 2 [[1, 0], [1, 0]], right = Arr2 2 [[1, 0], [1, 0]],
            grid = \<lparr>azi = Arr1 [0, 1], colat = Arr1 [0, 0]\<rparr>, fs_of = 48000\<rparr>"
      and S = 2 and H = 2
      and render = "\<lambda>sdm_p sdm_phi sdm_theta hrirs. Inr (sdm_phi @ [0], sdm_p @ [3])"
      and sdm_p = "[1, 2]" and sdm_phi = "[0, 1 / 2]" and sdm_theta = "[1, 1]"]
  by (simp add: hrirs_len_def)

lemma fill_zero_bank_rows:
  assumes "fill_rows f [0..<360] (replicate 720 (replicate n 0)) = Inr B" "k < 360"
  shows "\<exists>l r. f k = Inr (l, r) \<and>
        (length l = length (B ! (2 * k)) \<longrightarrow> B ! (2 * k) = l) \<and>
        (length r = length (B ! (2 * k + 1)) \<longrightarrow> B ! (2 * k + 1) = r)"
proof -
  from fill_zero_bank(1,2)[OF assms(1)] assms(2)
  have "length (B ! (2 * k)) = n" "length (B ! (2 * k + 1)) = n" by simp_all
  with fill_zero_bank(3)[OF assms] show ?thesis by simp
qed

text \<open>
  Claim C2. In the bank a sweep returns, for every orientation \<open>k < 360\<close>, the render
  invoked for \<open>k\<close> returned a pair (hull binauralisation at orientation
  \<open>(k * pi / 180, 0)\<close>, or the SDM renderer on the azimuth minus \<open>k * pi / 180\<close>), and
  row \<open>2 * k\<close> is its left signal and row \<open>2 * k + 1\<close> its right signal, each signal
  having the column count of the bank as the renderers' contract says.
\<close>

theorem rows_match_renders:
  "(sweep_loudspeaker hull' ls_irs fs hrirs = Inr B \<and> k < 360 \<longrightarrow>
      (\<exists>ir_l ir_r. hull' ls_irs fs (real k * pi / 180, 0) hrirs = Inr (ir_l, ir_r) \<and>
         (length ir_l = length (B ! (2 * k)) \<longrightarrow> B ! (2 * k) = ir_l) \<and>
         (length ir_r = length (B ! (2 * k + 1)) \<longrightarrow> B ! (2 * k + 1) = ir_r))) \<and>
   (sweep_sdm render sdm_p sdm_phi sdm_theta hrirs = Inr B \<and> k < 360 \<longrightarrow>
      (\<exists>ir_l ir_r.
         render sdm_p (map (\<lambda>x. x - real k * pi / 180) sdm_phi) sdm_theta hrirs = Inr (ir_l, ir_r) \<and>
         (length ir_l = length (B ! (2 * k)) \<longrightarrow> B ! (2 * k) = ir_l) \<and>
         (length ir_r = length (B ! (2 * k + 1)) \<longrightarrow> B ! (2 * k + 1) = ir_r)))"
proof (intro conjI impI)
  assume a: "sweep_loudspeaker hull' ls_irs fs hrirs = Inr B \<and> k < 360"
  then obtain S H where
    f: "fill_rows (\<lambda>angle. hull' ls_irs fs (np_deg2rad angle, 0) hrirs) [0..<360]
          (replicate 720 (replicate (S + H - 1) 0)) = Inr B"
    unfolding sweep_loudspeaker_Inr by blast
  from fill_zero_bank_rows[OF f] a
  show "\<exists>ir_l ir_r. hull' ls_irs fs (real k * pi / 180, 0) hrirs = Inr (ir_l, ir_r) \<and>
         (length ir_l = length (B ! (2 * k)) \<longrightarrow> B ! (2 * k) = ir_l) \<and>
         (length ir_r = length (B ! (2 * k + 1)) \<longrightarrow> B ! (2 * k + 1) = ir_r)"
    by (simp add: np_deg2rad_def)
next
  assume a: "sweep_sdm render sdm_p sdm_phi sdm_theta hrirs = Inr B \<and> k < 360"
  then obtain H where
    f: "fill_rows (\<lambda>angle. render sdm_p (rotate_phi sdm_phi angle) sdm_theta hrirs) [0..<360]
          (replicate 720 (replicate (length sdm_p + H - 1) 0)) = Inr B"
    unfolding sweep_sdm_Inr by blast
  from fill_zero_bank_rows[OF f] a
  show "\<exists>ir_l ir_r.
         render sdm_p (map (\<lambda>x. x - real k * pi / 180) sdm_phi) sdm_theta hrirs = Inr (ir_l, ir_r) \<and>
         (length ir_l = length (B ! (2 * k)) \<longrightarrow> B ! (2 * k) = ir_l) \<and>
         (length ir_r = length (B ! (2 * k + 1)) \<longrightarrow> B ! (2 * k + 1) = ir_r)"
    by (simp add: np_deg2rad_def rotate_phi_def)
qed

lemma sweep_loudspeaker_total:
  assumes "np_shape1 ls_irs = Inr S" "hrirs_len hrirs = Inr H" "1 \<le> S + H"
    "\<forall>k < 360. \<exists>l r. hull' ls_irs fs (np_deg2rad k, 0) hrirs = Inr (l, r) \<and>
        length l = S + H - 1 \<and> length r = S + H - 1"
  shows "\<exists>B. sweep_loudspeaker hull' ls_irs fs hrirs = Inr B \<and> length B = 720 \<and>
           (\<forall>row \<in> set B. length row = S + H - 1)"
proof -
  from fill_zero_bank_total[OF assms(4)] obtain B where
    f: "fill_rows (\<lambda>angle. hull' ls_irs fs (np_deg2rad angle, 0) hrirs) [0..<360]
          (replicate 720 (replicate (S + H - 1) 0)) = Inr B" by blast
  then have "sweep_loudspeaker hull' ls_irs fs hrirs = Inr B"
    unfolding sweep_loudspeaker_Inr using assms(1-3) by blast
  with fill_zero_bank(1,2)[OF f] show ?thesis by blast
qed

lemma sweep_sdm_total:
  assumes "hrirs_len hrirs = Inr H" "1 \<le> length sdm_p + H"
    "\<forall>k < 360. \<exists>l r. render sdm_p (rotate_phi sdm_phi k) sdm_theta hrirs = Inr (l, r) \<and>
        length l = length sdm_p + H - 1 \<and> length r = length sdm_p + H - 1"
  shows "\<exists>B. sweep_sdm render sdm_p sdm_phi sdm_theta hrirs = Inr B \<and> length B = 720 \<and>
           (\<forall>row \<in> set B. length row = length sdm_p + H - 1)"
proof -
  from fill_zero_bank_total[OF assms(3)] obtain B where
    f: "fill_rows (\<lambda>angle. render sdm_p (rotate_phi sdm_phi angle) sdm_theta hrirs) [0..<360]
          (replicate 720 (replicate (length sdm_p + H - 1) 0)) = Inr B" by blast
  then have "sweep_sdm render sdm_p sdm_phi sdm_theta hrirs = Inr B"
    unfolding sweep_sdm_Inr using assms(1,2) by blast
  with fill_zero_bank(1,2)[OF f] show ?thesis by blast
qed

text \<open>
  Orientation 90 in both variants: rows 180 and 181 are the two signals rendered for it.
\<close>

theorem rows_match_renders_witness:
  "(\<exists>B. sweep_loudspeaker (\<lambda>ls_irs fs (az, el) hrirs. Inr ([az, 0, 0], [el, 1, 2]))
          (Arr2 2 [[1, 0]]) 48000
          \<lparr>left = Arr2 2 [[1, 0], [1, 0]], right = Arr2 2 [[1, 0], [1, 0]],
            grid = \<lparr>azi = Arr1 [0, 1], colat = Arr1 [0, 0]\<rparr>, fs_of = 48000\<rparr> = Inr B \<and>
        B ! 180 = [90 * pi / 180, 0, 0] \<and> B ! 181 = [0, 1, 2]) \<and>
   (\<exists>B. sweep_sdm (\<lambda>sdm_p sdm_phi sdm_theta hrirs. Inr (sdm_phi @ [0], sdm_p @ [3]))
          [1, 2] [0, 1 / 2] [1, 1]
          \<lparr>left = Arr2 2 [[1, 0], [1, 0]], right = Arr2 2 [[1, 0], [1, 0]],
            grid = \<lparr>azi = Arr1 [0, 1], colat = Arr1 [0, 0]\<rparr>, fs_of = 48000\<rparr> = Inr B \<and>
        B ! 180 = [0 - 90 * pi / 180, 1 / 2 - 90 * pi / 180, 0] \<and> B ! 181 = [1, 2, 3])"
proof -
  let ?h = "\<lparr>left = Arr2 2 [[1, 0], [1, 0]], right = Arr2 2 [[1, 0], [1, 0]],
            grid = \<lparr>azi = Arr1 [0, 1], colat = Arr1 [0, 0]\<rparr>, fs_of = 48000\<rparr>"
  let ?hull = "\<lambda>(ls_irs::ndarray) (fs::int) (az::real, el::real) (hrirs::HRIRs).
      (Inr ([az, 0, 0], [el, 1, 2]) :: error + real list \<times> real list)"
  let ?render = "\<lambda>(sdm_p::real list) (sdm_phi::real list) (sdm_theta::real list) (hrirs::HRIRs).
      (Inr (sdm_phi @ [0], sdm_p @ [3]) :: error + real list \<times> real list)"
  obtain B1 where b1: "sweep_loudspeaker ?hull (Arr2 2 [[1, 0]]) 48000 ?h = Inr B1"
    and l1: "length B1 = 720" and r1: "\<forall>row \<in> set B1. length row = 2 + 2 - 1"
    using sweep_loudspeaker_total[where hull' = ?hull and ls_irs = "Arr2 2 [[1, 0]]"
        and fs = 48000 and hrirs = ?h and S = 2 and H = 2]
    by (auto simp: hrirs_len_def)
  obtain B2 where b2: "sweep_sdm ?render [1, 2] [0, 1 / 2] [1, 1] ?h = Inr B2"
    and l2: "length B2 = 720" and r2: "\<forall>row \<in> set B2. length row = length [1::real, 2] + 2 - 1"
    using sweep_sdm_total[where render = ?render and sdm_p = "[1, 2]" and sdm_phi = "[0, 1 / 2]"
        and sdm_theta = "[1, 1]" and hrirs = ?h and H = 2]
    by (auto simp: hrirs_len_def rotate_phi_def)
  have n1: "length (B1 ! 180) = 3" "length (B1 ! 181) = 3"
    using l1 r1 by simp_all
  have n2: "length (B2 ! 180) = 3" "length (B2 ! 181) = 3"
    using l2 r2 by simp_all
  have "B1 ! 180 = [90 * pi / 180, 0, 0] \<and> B1 ! 181 = [0, 1, 2]"
    using rows_match_renders[where hull' = ?hull and ls_irs = "Arr2 2 [[1, 0]]" and fs = 48000
        and hrirs = ?h and B = B1 and k = 90] b1 n1
    by auto
  moreover have "B2 ! 180 = [0 - 90 * pi / 180, 1 / 2 - 90 * pi / 180, 0] \<and> B2 ! 181 = [1, 2, 3]"
    using rows_match_renders[where render = ?render and sdm_p = "[1, 2]" and sdm_phi = "[0, 1 / 2]"
        and sdm_theta = "[1, 1]" and hrirs = ?h and B = B2 and k = 90] b2 n2
    by auto
  ultimately show ?thesis using b1 b2 by blast
qed

section \<open>The room variant, the sample rate check and the default containers\<close>

lemma rotate_phi_nth:
  "length (rotate_phi sdm_phi k) = length sdm_phi \<and>
   (\<forall>i < length sdm_phi. rotate_phi sdm_phi k ! i = sdm_phi ! i - real k * pi / 180)"
  by (simp add: rotate_phi_def np_deg2rad_def)

lemma sweep_sdm_cong:
  assumes "\<forall>k < 360. render sdm_p (rotate_phi sdm_phi k) sdm_theta hrirs
                     = render' sdm_p (rotate_phi sdm_phi k) sdm_theta hrirs"
  shows "sweep_sdm render sdm_p sdm_phi sdm_theta hrirs
       = sweep_sdm render' sdm_p sdm_phi sdm_theta hrirs"
proof -
  have "fill_rows (\<lambda>angle. render sdm_p (rotate_phi sdm_phi angle) sdm_theta hrirs) [0..<360] B
      = fill_rows (\<lambda>angle. render' sdm_p (rotate_phi sdm_phi angle) sdm_theta hrirs) [0..<360] B" for B
    using assms by (intro fill_rows_cong) simp
  then show ?thesis
    unfolding sweep_sdm_def sdm_loop_fill by (simp split: sum.splits)
qed

text \<open>
  Claim C5. In the room variant the azimuth passed to the renderer for orientation \<open>k\<close>
  is a new sequence of the same length whose every element is the element of the original
  azimuth minus \<open>k * pi / 180\<close>. The sweep depends on the renderer only through its
  values at the original pressure, this rotated azimuth and the original colatitude, for
  the 360 orientations; and when the sweep returns, the renderer returned at these
  arguments for every \<open>k\<close> (each from the original azimuth, not from the azimuth of
  the orientation before) the two signals of rows \<open>2 * k\<close> and \<open>2 * k + 1\<close>.
\<close>

theorem sdm_rotation:
  "(length (rotate_phi sdm_phi k) = length sdm_phi \<and>
    (\<forall>i < length sdm_phi. rotate_phi sdm_phi k ! i = sdm_phi ! i - real k * pi / 180)) \<and>
   ((\<forall>j < 360. render sdm_p (rotate_phi sdm_phi j) sdm_theta hrirs
              = render' sdm_p (rotate_phi sdm_phi j) sdm_theta hrirs) \<longrightarrow>
      sweep_sdm render sdm_p sdm_phi sdm_theta hrirs
        = sweep_sdm render' sdm_p sdm_phi sdm_theta hrirs) \<and>
   (sweep_sdm render sdm_p sdm_phi sdm_theta hrirs = Inr B \<and> k < 360 \<longrightarrow>
      (\<exists>ir_l ir_r. render sdm_p (rotate_phi sdm_phi k) sdm_theta hrirs = Inr (ir_l, ir_r) \<and>
         (length ir_l = length (B ! (2 * k)) \<longrightarrow> B ! (2 * k) = ir_l) \<and>
         (length ir_r = length (B ! (2 * k + 1)) \<longrightarrow> B ! (2 * k + 1) = ir_r)))"
proof (intro conjI impI)
  show "length (rotate_phi sdm_phi k) = length sdm_phi"
    and "\<forall>i < length sdm_phi. rotate_phi sdm_phi k ! i = sdm_phi ! i - real k * pi / 180"
    using rotate_phi_nth[of sdm_phi k] by simp_all
next
  assume "\<forall>j < 360. render sdm_p (rotate_phi sdm_phi j) sdm_theta hrirs
              = render' sdm_p (rotate_phi sdm_phi j) sdm_theta hrirs"
  then show "sweep_sdm render sdm_p sdm_phi sdm_theta hrirs
        = sweep_sdm render' sdm_p sdm_phi sdm_theta hrirs"
    by (rule sweep_sdm_cong)
next
  assume a: "sweep_sdm render sdm_p sdm_phi sdm_theta hrirs = Inr B \<and> k < 360"
  then obtain H where
    f: "fill_rows (\<lambda>angle. render sdm_p (rotate_phi sdm_phi angle) sdm_theta hrirs) [0..<360]
          (replicate 720 (replicate (length sdm_p + H - 1) 0)) = Inr B"
    unfolding sweep_sdm_Inr by blast
  from fill_zero_bank_rows[OF f] a
  show "\<exists>ir_l ir_r. render sdm_p (rotate_phi sdm_phi k) sdm_theta hrirs = Inr (ir_l, ir_r) \<and>
         (length ir_l = length (B ! (2 * k)) \<longrightarrow> B ! (2 * k) = ir_l) \<and>
         (length ir_r = length (B ! (2 * k + 1)) \<longrightarrow> B ! (2 * k + 1) = ir_r)"
    by simp
qed

text \<open>
  A renderer that returns its azimuth, colatitude and pressure arguments: at orientation
  90 the rows show the azimuth minus \<open>90 * pi / 180\<close> and the unmodified colatitude and
  pressure; a renderer that fails on any other pressure or colatitude gives the same sweep.
\<close>

theorem sdm_rotation_witness:
  "rotate_phi [0, 1 / 2] 90 = [0 - 90 * pi / 180, 1 / 2 - 90 * pi / 180] \<and>
   sweep_sdm (\<lambda>sdm_p sdm_phi sdm_theta hrirs. Inr (sdm_phi @ [0], sdm_theta @ sdm_p))
       [1] [0, 1 / 2] [1, 1]
       \<lparr>left = Arr2 3 [[1, 0, 0], [1, 0, 0]], right = Arr2 3 [[1, 0, 0], [1, 0, 0]],
         grid = \<lparr>azi = Arr1 [0, 1], colat = Arr1 [0, 0]\<rparr>, fs_of = 48000\<rparr>
   = sweep_sdm (\<lambda>sdm_p sdm_phi sdm_theta hrirs.
         if sdm_p = [1] \<and> sdm_theta = [1, 1] then Inr (sdm_phi @ [0], sdm_theta @ sdm_p)
         else Inl TypeError)
       [1] [0, 1 / 2] [1, 1]
       \<lparr>left = Arr2 3 [[1, 0, 0], [1, 0, 0]], right = Arr2 3 [[1, 0, 0], [1, 0, 0]],
         grid = \<lparr>azi = Arr1 [0, 1], colat = Arr1 [0, 0]\<rparr>, fs_of = 48000\<rparr> \<and>
   (\<exists>B. sweep_sdm (\<lambda>sdm_p sdm_phi sdm_theta hrirs. Inr (sdm_phi @ [0], sdm_theta @ sdm_p))
        [1] [0, 1 / 2] [1, 1]
        \<lparr>left = Arr2 3 [[1, 0, 0], [1, 0, 0]], right = Arr2 3 [[1, 0, 0], [1, 0, 0]],
          grid = \<lparr>azi = Arr1 [0, 1], colat = Arr1 [0, 0]\<rparr>, fs_of = 48000\<rparr> = Inr B \<and>
      B ! 180 = [0 - 90 * pi / 180, 1 / 2 - 90 * pi / 180, 0] \<and> B ! 181 = [1, 1, 1])"
proof -
  let ?h = "\<lparr>left = Arr2 3 [[1, 0, 0], [1, 0, 0]], right = Arr2 3 [[1, 0, 0], [1, 0, 0]],
         grid = \<lparr>azi = Arr1 [0, 1], colat = Arr1 [0, 0]\<rparr>, fs_of = 48000\<rparr>"
  let ?render = "\<lambda>(sdm_p::real list) (sdm_phi::real list) (sdm_theta::real list) (hrirs::HRIRs).
      (Inr (sdm_phi @ [0], sdm_theta @ sdm_p) :: error + real list \<times> real list)"
  let ?render' = "\<lambda>(sdm_p::real list) (sdm_phi::real list) (sdm_theta::real list) (hrirs::HRIRs).
      if sdm_p = [1] \<and> sdm_theta = [1, 1]
      then (Inr (sdm_phi @ [0], sdm_theta @ sdm_p) :: error + real list \<times> real list)
      else Inl TypeError"
  obtain B where b: "sweep_sdm ?render [1] [0, 1 / 2] [1, 1] ?h = Inr B"
    and l: "length B = 720" and r: "\<forall>row \<in> set B. length row = length [1::real] + 3 - 1"
    using sweep_sdm_total[where render = ?render and sdm_p = "[1]" and sdm_phi = "[0, 1 / 2]"
        and sdm_theta = "[1, 1]" and hrirs = ?h and H = 3]
    by (auto simp: hrirs_len_def rotate_phi_def)
  have n: "length (B ! 180) = 3" "length (B ! 181) = 3"
    using l r by simp_all
  note inst = sdm_rotation[where render = ?render and render' = ?render' and sdm_p = "[1]"
        and sdm_phi = "[0, 1 / 2]" and sdm_theta = "[1, 1]" and hrirs = ?h and B = B and k = 90]
  have rot: "rotate_phi [0, 1 / 2] 90 = [0 - 90 * pi / 180, 1 / 2 - 90 * pi / 180]"
    by (simp add: rotate_phi_def np_deg2rad_def)
  have eq: "sweep_sdm ?render [1] [0, 1 / 2] [1, 1] ?h = sweep_sdm ?render' [1] [0, 1 / 2] [1, 1] ?h"
    using inst by simp
  have rows: "B ! 180 = [0 - 90 * pi / 180, 1 / 2 - 90 * pi / 180, 0] \<and> B ! 181 = [1, 1, 1]"
    using inst b n unfolding rot by auto
  show ?thesis using rot eq rows b by blast
qed

lemma hrirs_of_mat_rate:
  assumes "hrirs_of_mat m r dummy = Inr h"
  shows "fs_of h = r" and "fs \<noteq> r \<Longrightarrow> hrirs_of_mat m fs dummy = Inl AssertionError"
  using assms
  by (auto simp: hrirs_of_mat_def Let_def split: sum.splits prod.splits if_splits)

lemma load_hrirs_rate:
  assumes "load_hrirs w fs filename dummy = Inr h"
  shows "fs_of h = fs"
  using assms hrirs_of_mat_rate(1)
  by (auto simp: load_hrirs_def split: sum.splits option.splits)

lemma checked_hrirs_mismatch:
  "fs_of h \<noteq> fs \<Longrightarrow> checked_hrirs w fs (Some h) = Inl AssertionError"
  by (simp add: checked_hrirs_def)

lemma checked_hrirs_default_mismatch:
  assumes "default_filename (module_dir w) fs = Inr f" "mat_files w f = Some m"
    "hrirs_of_mat m r False = Inr h" "r \<noteq> fs"
  shows "checked_hrirs w fs None = Inl AssertionError"
proof -
  have "hrirs_of_mat m fs False = Inl AssertionError"
    using hrirs_of_mat_rate(2)[OF assms(3), of fs] assms(4) by auto
  then show ?thesis
    using assms(1,2) by (simp add: checked_hrirs_def load_hrirs_def)
qed

text \<open>
  Claim C4. If the sample rate of the HRIR set differs from the argument \<open>fs\<close>, both
  variants fail with AssertionError (the spec's SampleRateMismatch) at the check of lines
  209 and 254: whatever the renderer would do, nothing is rendered, and the environment
  is returned as it was, without an output file or a warning. This holds for a set passed
  by the caller and for the default container when its rate \<open>r\<close> is not \<open>fs\<close>.
\<close>

theorem sample_rate_mismatch:
  "(fs_of h \<noteq> fs \<longrightarrow>
      checked_hrirs w fs (Some h) = Inl AssertionError \<and>
      write_ssr_brirs_loudspeaker w filename ls_irs hull' fs (Some h) = (Inl AssertionError, w) \<and>
      write_ssr_brirs_sdm render w filename sdm_p sdm_phi sdm_theta fs (Some h)
        = (Inl AssertionError, w)) \<and>
   (default_filename (module_dir w) fs = Inr f \<and> mat_files w f = Some m \<and>
    hrirs_of_mat m r False = Inr h \<and> r \<noteq> fs \<longrightarrow>
      checked_hrirs w fs None = Inl AssertionError \<and>
      write_ssr_brirs_loudspeaker w filename ls_irs hull' fs None = (Inl AssertionError, w) \<and>
      write_ssr_brirs_sdm render w filename sdm_p sdm_phi sdm_theta fs None
        = (Inl AssertionError, w))"
  using checked_hrirs_mismatch[of h fs w] checked_hrirs_default_mismatch[of w fs f m r h]
  by (simp add: write_ssr_brirs_loudspeaker_def write_ssr_brirs_sdm_def)

lemma default_filename_48000:
  "default_filename ''/pkg'' 48000 = Inr ''/pkg/../data/HRTF_default48k.mat''"
  by (simp add: default_filename_def os_path_join_def)

text \<open>
  A set of rate 44100 passed with \<open>fs = 48000\<close>, and a default container for 48000
  that declares 44100.
\<close>

theorem sample_rate_mismatch_witness:
  "write_ssr_brirs_loudspeaker
     \<lparr>module_dir = ''/pkg'',
      mat_files = [''/pkg/../data/HRTF_default48k.mat'' \<mapsto>
        [''hrir_l'' \<mapsto> Arr2 2 [[1, 0], [0, 1]], ''hrir_r'' \<mapsto> Arr2 2 [[0, 1], [1, 0]],
         ''SamplingRate'' \<mapsto> Arr2 1 [[44100]], ''azi'' \<mapsto> Arr2 2 [[0, 1]],
         ''elev'' \<mapsto> Arr2 2 [[0, 0]]]],
      wav_files = Map.empty, unwritable = {}, warnings = []\<rparr>
     ''out'' (Arr2 2 [[1, 0]]) (\<lambda>ls_irs fs (az, el) hrirs. Inr ([az, 0, 0], [el, 1, 2])) 48000
     (Some \<lparr>left = Arr2 2 [[1, 0], [0, 1]], right = Arr2 2 [[0, 1], [1, 0]],
            grid = \<lparr>azi = Arr1 [0, 1], colat = Arr1 [0, 0]\<rparr>, fs_of = 44100\<rparr>)
   = (Inl AssertionError,
      \<lparr>module_dir = ''/pkg'',
      mat_files = [''/pkg/../data/HRTF_default48k.mat'' \<mapsto>
        [''hrir_l'' \<mapsto> Arr2 2 [[1, 0], [0, 1]], ''hrir_r'' \<mapsto> Arr2 2 [[0, 1], [1, 0]],
         ''SamplingRate'' \<mapsto> Arr2 1 [[44100]], ''azi'' \<mapsto> Arr2 2 [[0, 1]],
         ''elev'' \<mapsto> Arr2 2 [[0, 0]]]],
      wav_files = Map.empty, unwritable = {}, warnings = []\<rparr>) \<and>
   write_ssr_brirs_sdm (\<lambda>sdm_p sdm_phi sdm_theta hrirs. Inr (sdm_phi @ [0], sdm_p @ [3]))
     \<lparr>module_dir = ''/pkg'',
      mat_files = [''/pkg/../data/HRTF_default48k.mat'' \<mapsto>
        [''hrir_l'' \<mapsto> Arr2 2 [[1, 0], [0, 1]], ''hrir_r'' \<mapsto> Arr2 2 [[0, 1], [1, 0]],
         ''SamplingRate'' \<mapsto> Arr2 1 [[44100]], ''azi'' \<mapsto> Arr2 2 [[0, 1]],
         ''elev'' \<mapsto> Arr2 2 [[0, 0]]]],
      wav_files = Map.empty, unwritable = {}, warnings = []\<rparr>
     ''out'' [1, 2] [0, 1 / 2] [1, 1] 48000 None
   = (Inl AssertionError,
      \<lparr>module_dir = ''/pkg'',
      mat_files = [''/pkg/../data/HRTF_default48k.mat'' \<mapsto>
        [''hrir_l'' \<mapsto> Arr2 2 [[1, 0], [0, 1]], ''hrir_r'' \<mapsto> Arr2 2 [[0, 1], [1, 0]],
         ''SamplingRate'' \<mapsto> Arr2 1 [[44100]], ''azi'' \<mapsto> Arr2 2 [[0, 1]],
         ''elev'' \<mapsto> Arr2 2 [[0, 0]]]],
      wav_files = Map.empty, unwritable = {}, warnings = []\<rparr>)"
proof -
  let ?m = "[''hrir_l'' \<mapsto> Arr2 2 [[1, 0], [0, 1]], ''hrir_r'' \<mapsto> Arr2 2 [[0, 1], [1, 0]],
         ''SamplingRate'' \<mapsto> Arr2 1 [[44100]], ''azi'' \<mapsto> Arr2 2 [[0, 1]],
         ''elev'' \<mapsto> Arr2 2 [[0, 0]]]"
  let ?w = "\<lparr>module_dir = ''/pkg'',
      mat_files = [''/pkg/../data/HRTF_default48k.mat'' \<mapsto> ?m],
      wav_files = Map.empty, unwritable = {}, warnings = []\<rparr>"
  let ?h = "\<lparr>left = Arr2 2 [[1, 0], [0, 1]], right = Arr2 2 [[0, 1], [1, 0]],
            grid = \<lparr>azi = Arr1 [0, 1], colat = Arr1 [0, 0]\<rparr>, fs_of = 44100\<rparr>"
  have h1: "fs_of ?h \<noteq> 48000" by simp
  have h2: "default_filename (module_dir ?w) 48000 = Inr ''/pkg/../data/HRTF_default48k.mat''"
    using default_filename_48000 by simp
  have h3: "mat_files ?w ''/pkg/../data/HRTF_default48k.mat'' = Some ?m" by simp
  have h4: "hrirs_of_mat ?m 44100 False = Inr ?h"
    by (simp add: hrirs_of_mat_def mat_get_def int_of_array_def python_int_def)
  have h5: "(44100::int) \<noteq> 48000" by simp
  show ?thesis
    using sample_rate_mismatch[where h = ?h and fs = 48000 and w = ?w and filename = "''out''"
        and ls_irs = "Arr2 2 [[1, 0]]"
        and hull' = "\<lambda>ls_irs fs (az, el) hrirs. Inr ([az, 0, 0], [el, 1, 2])"
        and render = "\<lambda>sdm_p sdm_phi sdm_theta hrirs. Inr (sdm_phi @ [0], sdm_p @ [3])"
        and sdm_p = "[1, 2]" and sdm_phi = "[0, 1 / 2]" and sdm_theta = "[1, 1]"
        and f = "''/pkg/../data/HRTF_default48k.mat''" and m = ?m and r = 44100]
      h1 h2 h3 h4 h5
    by blast
qed

text \<open>
  Claim C6. Without a file name, \<^verbatim>\<open>load_hrirs\<close> raises
  ValueError \<^verbatim>\<open>No default hrirs.\<close> (the spec's UnsupportedSampleRate) for every
  sample rate other than 44100 and 48000, and for these two it loads the default
  container of that rate from the data directory of the module.
\<close>

theorem default_hrirs:
  "(fs \<noteq> 44100 \<and> fs \<noteq> 48000 \<longrightarrow>
      load_hrirs w fs None dummy = Inl (ValueError ''No default hrirs.'')) \<and>
   (fs = 44100 \<longrightarrow>
      load_hrirs w fs None dummy =
        load_hrirs w fs (Some (os_path_join (module_dir w) ''../data/HRTF_default.mat'')) dummy) \<and>
   (fs = 48000 \<longrightarrow>
      load_hrirs w fs None dummy =
        load_hrirs w fs (Some (os_path_join (module_dir w) ''../data/HRTF_default48k.mat'')) dummy)"
  by (simp add: load_hrirs_def default_filename_def)

text \<open>
  With only the 48000 container installed: 22050 is unsupported, 48000 loads the
  container, and 44100 selects the other default, which is missing.
\<close>

theorem default_hrirs_witness:
  "load_hrirs
     \<lparr>module_dir = ''/pkg'',
      mat_files = [''/pkg/../data/HRTF_default48k.mat'' \<mapsto>
        [''hrir_l'' \<mapsto> Arr2 2 [[1, 0], [0, 1]], ''hrir_r'' \<mapsto> Arr2 2 [[0, 1], [1, 0]],
         ''SamplingRate'' \<mapsto> Arr2 1 [[48000]], ''azi'' \<mapsto> Arr2 2 [[0, 1]],
         ''elev'' \<mapsto> Arr2 2 [[0, 0]]]],
      wav_files = Map.empty, unwritable = {}, warnings = []\<rparr> 22050 None False
   = Inl (ValueError ''No default hrirs.'') \<and>
   load_hrirs
     \<lparr>module_dir = ''/pkg'',
      mat_files = [''/pkg/../data/HRTF_default48k.mat'' \<mapsto>
        [''hrir_l'' \<mapsto> Arr2 2 [[1, 0], [0, 1]], ''hrir_r'' \<mapsto> Arr2 2 [[0, 1], [1, 0]],
         ''SamplingRate'' \<mapsto> Arr2 1 [[48000]], ''azi'' \<mapsto> Arr2 2 [[0, 1]],
         ''elev'' \<mapsto> Arr2 2 [[0, 0]]]],
      wav_files = Map.empty, unwritable = {}, warnings = []\<rparr> 48000 None False
   = Inr \<lparr>left = Arr2 2 [[1, 0], [0, 1]], right = Arr2 2 [[0, 1], [1, 0]],
          grid = \<lparr>azi = Arr1 [0, 1], colat = Arr1 [0, 0]\<rparr>, fs_of = 48000\<rparr> \<and>
   load_hrirs
     \<lparr>module_dir = ''/pkg'',
      mat_files = [''/pkg/../data/HRTF_default48k.mat'' \<mapsto>
        [''hrir_l'' \<mapsto> Arr2 2 [[1, 0], [0, 1]], ''hrir_r'' \<mapsto> Arr2 2 [[0, 1], [1, 0]],
         ''SamplingRate'' \<mapsto> Arr2 1 [[48000]], ''azi'' \<mapsto> Arr2 2 [[0, 1]],
         ''elev'' \<mapsto> Arr2 2 [[0, 0]]]],
      wav_files = Map.empty, unwritable = {}, warnings = []\<rparr> 44100 None False
   = Inl (ValueError ''No default hrirs. Try running HRIRs_from_SH.py'')"
proof -
  let ?m = "[''hrir_l'' \<mapsto> Arr2 2 [[1, 0], [0, 1]], ''hrir_r'' \<mapsto> Arr2 2 [[0, 1], [1, 0]],
         ''SamplingRate'' \<mapsto> Arr2 1 [[48000]], ''azi'' \<mapsto> Arr2 2 [[0, 1]],
         ''elev'' \<mapsto> Arr2 2 [[0, 0]]]"
  let ?w = "\<lparr>module_dir = ''/pkg'',
      mat_files = [''/pkg/../data/HRTF_default48k.mat'' \<mapsto> ?m],
      wav_files = Map.empty, unwritable = {}, warnings = []\<rparr>"
  have a: "load_hrirs ?w 48000 (Some ''/pkg/../data/HRTF_default48k.mat'') False
      = Inr \<lparr>left = Arr2 2 [[1, 0], [0, 1]], right = Arr2 2 [[0, 1], [1, 0]],
          grid = \<lparr>azi = Arr1 [0, 1], colat = Arr1 [0, 0]\<rparr>, fs_of = 48000\<rparr>"
    by (simp add: load_hrirs_def hrirs_of_mat_def mat_get_def int_of_array_def python_int_def)
  have b: "load_hrirs ?w 44100 (Some ''/pkg/../data/HRTF_default.mat'') False
      = Inl (ValueError ''No default hrirs. Try running HRIRs_from_SH.py'')"
    by (simp add: load_hrirs_def)
  have j1: "os_path_join ''/pkg'' ''../data/HRTF_default48k.mat'' = ''/pkg/../data/HRTF_default48k.mat''"
    and j2: "os_path_join ''/pkg'' ''../data/HRTF_default.mat'' = ''/pkg/../data/HRTF_default.mat''"
    by (simp_all add: os_path_join_def)
  show ?thesis
    using default_hrirs[of 22050 ?w False] default_hrirs[of 48000 ?w False]
      default_hrirs[of 44100 ?w False] a b j1 j2
    by simp
qed

section \<open>load_hrirs in dummy mode\<close>

lemma dirac_rows:
  "map2 (\<lambda>row v. row[0 := v]) (replicate g (replicate c 0)) (np_ones g)
     = replicate g ((replicate c (0::real))[0 := 1])"
  by (simp add: np_ones_def zip_replicate)

lemma set_column0_zeros_Inr:
  "set_column0_ones (np_zeros_like a) = Inr b \<longleftrightarrow>
     (\<exists>c rows. a = Arr2 c rows \<and> 0 < c \<and>
        b = Arr2 c (replicate (length rows) ((replicate c 0)[0 := 1])))"
  by (cases a) (auto simp: dirac_rows)


lemma dummy_hrirs_Inr:
  "dummy_hrirs a_l a_r = Inr (l, r) \<longleftrightarrow>
     (\<exists>c rows c' rows'. a_l = Arr2 c rows \<and> 0 < c \<and> a_r = Arr2 c' rows' \<and> 0 < c' \<and>
        l = Arr2 c (replicate (length rows) ((replicate c 0)[0 := 1])) \<and>
        r = Arr2 c' (replicate (length rows') ((replicate c' 0)[0 := 1])))"
  unfolding dummy_hrirs_def
  by (auto simp: set_column0_zeros_Inr split: sum.splits)


lemma dirac_row_nth:
  "j < c \<Longrightarrow> (replicate c (0::real))[0 := 1] ! j = (if j = 0 then 1 else 0)"
  by (simp add: nth_list_update)

text \<open>The steps of lines 130 to 135, which do not depend on the dummy flag.\<close>

lemma hrirs_of_mat_cases:
  obtains (fail) e where "\<And>fs d. hrirs_of_mat m fs d = Inl e" "e \<noteq> IndexError" "e \<noteq> AssertionError"
  | (loaded) a_l a_r g r where "m ''hrir_l'' = Some a_l" "m ''hrir_r'' = Some a_r"
      "\<And>fs. hrirs_of_mat m fs False =
         (if r = fs then Inr \<lparr>left = np_squeeze a_l, right = np_squeeze a_r, grid = g, fs_of = r\<rparr>
          else Inl AssertionError)"
      "\<And>fs. hrirs_of_mat m fs True =
         (case dummy_hrirs (np_squeeze a_l) (np_squeeze a_r) of
            Inl e \<Rightarrow> Inl e
          | Inr (l, r') \<Rightarrow>
              if r = fs then Inr \<lparr>left = l, right = r', grid = g, fs_of = r\<rparr>
              else Inl AssertionError)"
proof (cases "\<exists>a_l a_r a_fs hrir_fs a_azi a_elev. m ''hrir_l'' = Some a_l \<and> m ''hrir_r'' = Some a_r \<and>
    m ''SamplingRate'' = Some a_fs \<and> int_of_array a_fs = Inr hrir_fs \<and>
    m ''azi'' = Some a_azi \<and> m ''elev'' = Some a_elev")
  case True
  then obtain a_l a_r a_fs hrir_fs a_azi a_elev where
    h: "m ''hrir_l'' = Some a_l" "m ''hrir_r'' = Some a_r"
    "m ''SamplingRate'' = Some a_fs" "int_of_array a_fs = Inr hrir_fs"
    "m ''azi'' = Some a_azi" "m ''elev'' = Some a_elev" by blast
  show ?thesis
  proof (rule loaded[of a_l a_r hrir_fs "\<lparr>azi = np_squeeze a_azi, colat = np_squeeze a_elev\<rparr>"])
    show "m ''hrir_l'' = Some a_l" "m ''hrir_r'' = Some a_r" by (rule h)+
    show "\<And>fs. hrirs_of_mat m fs False =
         (if hrir_fs = fs then Inr \<lparr>left = np_squeeze a_l, right = np_squeeze a_r,
             grid = \<lparr>azi = np_squeeze a_azi, colat = np_squeeze a_elev\<rparr>, fs_of = hrir_fs\<rparr>
          else Inl AssertionError)"
      using h by (simp add: hrirs_of_mat_def mat_get_def)
    show "\<And>fs. hrirs_of_mat m fs True =
         (case dummy_hrirs (np_squeeze a_l) (np_squeeze a_r) of
            Inl e \<Rightarrow> Inl e
          | Inr (l, r') \<Rightarrow>
              if hrir_fs = fs then Inr \<lparr>left = l, right = r',
                  grid = \<lparr>azi = np_squeeze a_azi, colat = np_squeeze a_elev\<rparr>, fs_of = hrir_fs\<rparr>
              else Inl AssertionError)"
      using h by (simp add: hrirs_of_mat_def mat_get_def split: sum.splits prod.splits)
  qed
next
  case False
  have "\<exists>e. (\<forall>fs d. hrirs_of_mat m fs d = Inl e) \<and> e \<noteq> IndexError \<and> e \<noteq> AssertionError"
  proof (cases "m ''hrir_l''")
    case None
    then show ?thesis by (auto simp: hrirs_of_mat_def mat_get_def)
  next
    case l: (Some a_l)
    show ?thesis
    proof (cases "m ''hrir_r''")
      case None
      then show ?thesis using l by (auto simp: hrirs_of_mat_def mat_get_def)
    next
      case r: (Some a_r)
      show ?thesis
      proof (cases "m ''SamplingRate''")
        case None
        then show ?thesis using l r by (auto simp: hrirs_of_mat_def mat_get_def)
      next
        case s: (Some a_fs)
        show ?thesis
        proof (cases "int_of_array a_fs")
          case (Inl e)
          then have "e = TypeError" by (auto simp: int_of_array_def split: list.splits)
          then show ?thesis using l r s Inl by (auto simp: hrirs_of_mat_def mat_get_def)
        next
          case i: (Inr hrir_fs)
          show ?thesis
          proof (cases "m ''azi''")
            case None
            then show ?thesis using l r s i by (auto simp: hrirs_of_mat_def mat_get_def)
          next
            case a: (Some a_azi)
            show ?thesis
            proof (cases "m ''elev''")
              case None
              then show ?thesis using l r s i a by (auto simp: hrirs_of_mat_def mat_get_def)
            next
              case (Some a_elev)
              then show ?thesis using False l r s i a by blast
            qed
          qed
        qed
      qed
    qed
  qed
  then show ?thesis using fail by blast
qed

lemma load_hrirs_Inr:
  "load_hrirs w fs filename d = Inr H \<longleftrightarrow>
     (\<exists>f m. (case filename of None \<Rightarrow> default_filename (module_dir w) fs | Some f' \<Rightarrow> Inr f') = Inr f \<and>
        mat_files w f = Some m \<and> hrirs_of_mat m fs d = Inr H)"
  by (auto simp: load_hrirs_def split: sum.splits option.splits)

lemma dirac_array:
  "\<forall>i < length (replicate g ((replicate c (0::real))[0 := 1])).
      length (replicate g ((replicate c (0::real))[0 := 1]) ! i) = c \<and>
      (\<forall>j < c. replicate g ((replicate c (0::real))[0 := 1]) ! i ! j = (if j = 0 then 1 else 0))"
  by (simp add: nth_list_update)

text \<open>
  Claim C7. When \<^verbatim>\<open>load_hrirs\<close> returns in dummy mode, the container was loaded, and
  the left and right arrays of the returned set have the shapes of the loaded (squeezed)
  arrays \<^verbatim>\<open>hrir_l\<close> and \<^verbatim>\<open>hrir_r\<close>; each is 2-D, and in every row (grid
  position) the sample at index 0 is 1 and every other sample is 0.
\<close>

theorem dummy_diracs:
  assumes "load_hrirs w fs filename True = Inr H"
  shows "\<exists>f m a_l a_r.
      (case filename of None \<Rightarrow> default_filename (module_dir w) fs | Some f' \<Rightarrow> Inr f') = Inr f \<and>
      mat_files w f = Some m \<and> m ''hrir_l'' = Some a_l \<and> m ''hrir_r'' = Some a_r \<and>
      np_shape (left H) = np_shape (np_squeeze a_l) \<and>
      np_shape (right H) = np_shape (np_squeeze a_r) \<and>
      (\<exists>c rows. left H = Arr2 c rows \<and> 0 < c \<and>
         (\<forall>i < length rows. length (rows ! i) = c \<and>
            (\<forall>j < c. rows ! i ! j = (if j = 0 then 1 else 0)))) \<and>
      (\<exists>c rows. right H = Arr2 c rows \<and> 0 < c \<and>
         (\<forall>i < length rows. length (rows ! i) = c \<and>
            (\<forall>j < c. rows ! i ! j = (if j = 0 then 1 else 0))))"
proof -
  from assms obtain f m where
    f: "(case filename of None \<Rightarrow> default_filename (module_dir w) fs | Some f' \<Rightarrow> Inr f') = Inr f"
    and m: "mat_files w f = Some m" and H: "hrirs_of_mat m fs True = Inr H"
    unfolding load_hrirs_Inr by blast
  show ?thesis
  proof (cases m rule: hrirs_of_mat_cases)
    case (fail e)
    with H show ?thesis by simp
  next
    case (loaded a_l a_r g r)
    from H loaded(4)[of fs] obtain l r' where
      d: "dummy_hrirs (np_squeeze a_l) (np_squeeze a_r) = Inr (l, r')"
      and HH: "H = \<lparr>left = l, right = r', grid = g, fs_of = r\<rparr>"
      by (auto split: sum.splits prod.splits if_splits)
    from d obtain c rows c' rows' where
      s: "np_squeeze a_l = Arr2 c rows" "0 < c" "np_squeeze a_r = Arr2 c' rows'" "0 < c'"
        "l = Arr2 c (replicate (length rows) ((replicate c 0)[0 := 1]))"
        "r' = Arr2 c' (replicate (length rows') ((replicate c' 0)[0 := 1]))"
      unfolding dummy_hrirs_Inr by blast
    have sl: "np_shape (left H) = np_shape (np_squeeze a_l)"
      and sr: "np_shape (right H) = np_shape (np_squeeze a_r)"
      using HH s by simp_all
    have dl: "\<exists>c rows. left H = Arr2 c rows \<and> 0 < c \<and>
         (\<forall>i < length rows. length (rows ! i) = c \<and>
            (\<forall>j < c. rows ! i ! j = (if j = 0 then 1 else 0)))"
      using HH s(2,5) dirac_array[of "length rows" c] by auto
    have dr: "\<exists>c rows. right H = Arr2 c rows \<and> 0 < c \<and>
         (\<forall>i < length rows. length (rows ! i) = c \<and>
            (\<forall>j < c. rows ! i ! j = (if j = 0 then 1 else 0)))"
      using HH s(4,6) dirac_array[of "length rows'" c'] by auto
    show ?thesis using f m loaded(1,2) sl sr dl dr by blast
  qed
qed

text \<open>
  A container of two grid positions and three samples: the dummy set has two unit
  impulses of three samples for each ear.
\<close>

theorem dummy_diracs_witness:
  "load_hrirs
     \<lparr>module_dir = ''/pkg'',
      mat_files = [''h.mat'' \<mapsto>
        [''hrir_l'' \<mapsto> Arr2 3 [[1 / 2, 1 / 4, 0], [0, 1 / 3, 1]],
         ''hrir_r'' \<mapsto> Arr2 3 [[0, 1 / 4, 1 / 2], [1, 1 / 3, 0]],
         ''SamplingRate'' \<mapsto> Arr2 1 [[48000]], ''azi'' \<mapsto> Arr2 2 [[0, 1]],
         ''elev'' \<mapsto> Arr2 2 [[0, 0]]]],
      wav_files = Map.empty, unwritable = {}, warnings = []\<rparr> 48000 (Some ''h.mat'') True
   = Inr \<lparr>left = Arr2 3 [[1, 0, 0], [1, 0, 0]], right = Arr2 3 [[1, 0, 0], [1, 0, 0]],
          grid = \<lparr>azi = Arr1 [0, 1], colat = Arr1 [0, 0]\<rparr>, fs_of = 48000\<rparr> \<and>
   np_shape (np_squeeze (Arr2 3 [[1 / 2, 1 / 4, 0], [0, 1 / 3, 1]])) = [2, 3] \<and>
   np_shape (Arr2 3 [[1, 0, 0], [1, 0, 0]]) = [2, 3]"
proof -
  let ?m = "[''hrir_l'' \<mapsto> Arr2 3 [[1 / 2, 1 / 4, 0], [0, 1 / 3, 1]],
         ''hrir_r'' \<mapsto> Arr2 3 [[0, 1 / 4, 1 / 2], [1, 1 / 3, 0]],
         ''SamplingRate'' \<mapsto> Arr2 1 [[48000]], ''azi'' \<mapsto> Arr2 2 [[0, 1]],
         ''elev'' \<mapsto> Arr2 2 [[0, 0]]]"
  let ?w = "\<lparr>module_dir = ''/pkg'', mat_files = [''h.mat'' \<mapsto> ?m],
      wav_files = Map.empty, unwritable = {}, warnings = []\<rparr>"
  let ?H = "\<lparr>left = Arr2 3 [[1, 0, 0], [1, 0, 0]], right = Arr2 3 [[1, 0, 0], [1, 0, 0]],
          grid = \<lparr>azi = Arr1 [0, 1], colat = Arr1 [0, 0]\<rparr>, fs_of = 48000\<rparr>"
  have h: "load_hrirs ?w 48000 (Some ''h.mat'') True = Inr ?H"
    by (simp add: load_hrirs_def hrirs_of_mat_def mat_get_def int_of_array_def python_int_def
        dummy_hrirs_def np_ones_def numeral_3_eq_3)
  show ?thesis
    using dummy_diracs[OF h] h by simp
qed






end
